theory Spec2Isabelle
  imports Complex_Main
begin

section \<open>The phugoid flight path of \<^verbatim>\<open>phugoid.py\<close>\<close>

text \<open>
  The module has three functions: \<^verbatim>\<open>radius_of_curvature\<close>, \<^verbatim>\<open>rotate\<close> and
  \<^verbatim>\<open>plot_flight_path\<close>. They are straight-line arithmetic on Python values plus one
  \<^verbatim>\<open>for\<close> loop over two NumPy arrays. The three functions are translated once, over
  a record of the operators they use. Two readings of the operators follow: exact real
  arithmetic, and Python floats together with NumPy \<^verbatim>\<open>float64\<close> scalars over IEEE 754
  binary64. The figure drawn at the end of \<^verbatim>\<open>plot_flight_path\<close> (lines 104 to 111) is
  not modelled; the model of that function ends with the local variables after line 101.
\<close>

subsection \<open>Exceptions\<close>

text \<open>
  A raised exception is a value \<open>Inl e\<close>; \<open>and_then\<close> passes the first one on, as
  Python leaves an expression or a block at the first exception. \<open>ComplexResult\<close>
  is no exception: it stands for a power whose value is not a real number (Python 3
  returns a complex number for a float power of a negative float), where the model, which
  has floats only, stops.
\<close>

datatype error = ZeroDivisionError | OverflowError | IndexError | ComplexResult

definition and_then :: "error + 'a \<Rightarrow> ('a \<Rightarrow> error + 'b) \<Rightarrow> error + 'b" where
  "and_then m f = (case m of Inl e \<Rightarrow> Inl e | Inr v \<Rightarrow> f v)"

subsection \<open>The operators of the source, as a record\<close>

text \<open>
  \<open>op_add\<close>, \<open>op_sub\<close>, \<open>op_mul\<close>, \<open>op_truediv\<close>, \<open>op_pow\<close> and \<open>op_neg\<close> are
  Python's \<^verbatim>\<open>+ - * / **\<close> and unary minus; \<open>np_cos\<close>, \<open>np_sin\<close> and \<open>np_pi\<close> are
  \<^verbatim>\<open>numpy.cos\<close>, \<^verbatim>\<open>numpy.sin\<close> and \<^verbatim>\<open>numpy.pi\<close>; \<open>float_lit\<close> is a float
  literal of the source text; \<open>np_float64\<close> is the value read back from a cell of a
  \<^verbatim>\<open>float64\<close> array after a value was stored there.
\<close>

record 'a arith =
  op_add :: "'a \<Rightarrow> 'a \<Rightarrow> error + 'a"
  op_sub :: "'a \<Rightarrow> 'a \<Rightarrow> error + 'a"
  op_mul :: "'a \<Rightarrow> 'a \<Rightarrow> error + 'a"
  op_truediv :: "'a \<Rightarrow> 'a \<Rightarrow> error + 'a"
  op_pow :: "'a \<Rightarrow> 'a \<Rightarrow> error + 'a"
  op_neg :: "'a \<Rightarrow> error + 'a"
  np_cos :: "'a \<Rightarrow> error + 'a"
  np_sin :: "'a \<Rightarrow> error + 'a"
  float_lit :: "real \<Rightarrow> 'a"
  np_pi :: 'a
  np_float64 :: "'a \<Rightarrow> 'a"

subsection \<open>\<^verbatim>\<open>radius_of_curvature\<close> (line 30)\<close>

text \<open>
  \<^verbatim>\<open>return zt / (1./3. - C/2.*(zt/z)**1.5)\<close>. The operands are evaluated left to
  right: \<^verbatim>\<open>1./3.\<close>, \<^verbatim>\<open>C/2.\<close>, \<^verbatim>\<open>zt/z\<close>, the power, the product, the difference,
  the quotient.
\<close>

definition radius_of_curvature :: "'a arith \<Rightarrow> 'a \<Rightarrow> 'a \<Rightarrow> 'a \<Rightarrow> error + 'a" where
  "radius_of_curvature A z zt C =
     and_then (op_truediv A (float_lit A 1) (float_lit A 3)) (\<lambda>third.
     and_then (op_truediv A C (float_lit A 2)) (\<lambda>halfC.
     and_then (op_truediv A zt z) (\<lambda>ratio.
     and_then (op_pow A ratio (float_lit A (3/2))) (\<lambda>p.
     and_then (op_mul A halfC p) (\<lambda>t.
     and_then (op_sub A third t) (\<lambda>denom.
     op_truediv A zt denom))))))"

subsection \<open>\<^verbatim>\<open>rotate\<close> (lines 55 to 60)\<close>

text \<open>
  \<^verbatim>\<open>dx = x - xCenter\<close>, \<^verbatim>\<open>dz = z - zCenter\<close>,
  \<^verbatim>\<open>xNew = dx*numpy.cos(angle) + dz*numpy.sin(angle)\<close>,
  \<^verbatim>\<open>zNew = -dx*numpy.sin(angle) + dz*numpy.cos(angle)\<close>,
  \<^verbatim>\<open>return xCenter + xNew, zCenter + zNew\<close>. In \<^verbatim>\<open>-dx*...\<close> the unary minus
  binds first. (The constant is named \<open>rotate_point\<close>, the name \<open>rotate\<close> being that of
  a list function.)
\<close>

definition rotate_point :: "'a arith \<Rightarrow> 'a \<Rightarrow> 'a \<Rightarrow> 'a \<Rightarrow> 'a \<Rightarrow> 'a \<Rightarrow> error + ('a \<times> 'a)" where
  "rotate_point A x z xCenter zCenter angle =
     and_then (op_sub A x xCenter) (\<lambda>dx.
     and_then (op_sub A z zCenter) (\<lambda>dz.
     and_then (np_cos A angle) (\<lambda>c1.
     and_then (op_mul A dx c1) (\<lambda>a1.
     and_then (np_sin A angle) (\<lambda>s1.
     and_then (op_mul A dz s1) (\<lambda>b1.
     and_then (op_add A a1 b1) (\<lambda>xNew.
     and_then (op_neg A dx) (\<lambda>ndx.
     and_then (np_sin A angle) (\<lambda>s2.
     and_then (op_mul A ndx s2) (\<lambda>a2.
     and_then (np_cos A angle) (\<lambda>c2.
     and_then (op_mul A dz c2) (\<lambda>b2.
     and_then (op_add A a2 b2) (\<lambda>zNew.
     and_then (op_add A xCenter xNew) (\<lambda>xr.
     and_then (op_add A zCenter zNew) (\<lambda>zr.
     Inr (xr, zr))))))))))))))))"

subsection \<open>\<^verbatim>\<open>plot_flight_path\<close> (lines 79 to 101)\<close>

text \<open>
  The local variables that live across the loop: the arrays \<^verbatim>\<open>x\<close> and \<^verbatim>\<open>z\<close>, the
  heading \<^verbatim>\<open>theta\<close>, the constant \<^verbatim>\<open>C\<close> and the step \<^verbatim>\<open>ds\<close>.
\<close>

record 'a frame =
  var_x :: "'a list"
  var_z :: "'a list"
  var_theta :: 'a
  var_C :: 'a
  var_ds :: 'a

definition N :: nat where
  "N = 1000"

text \<open>
  Indexing: a negative index counts from the end, an index out of range raises
  \<^verbatim>\<open>IndexError\<close>. A store converts the value to \<^verbatim>\<open>float64\<close>.
\<close>

definition getitem :: "'a list \<Rightarrow> int \<Rightarrow> error + 'a" where
  "getitem a i =
     (let n = int (length a); j = (if i < 0 then n + i else i)
      in if 0 \<le> j \<and> j < n then Inr (a ! nat j) else Inl IndexError)"

definition setitem :: "'a arith \<Rightarrow> 'a list \<Rightarrow> int \<Rightarrow> 'a \<Rightarrow> error + 'a list" where
  "setitem A a i v =
     (let n = int (length a); j = (if i < 0 then n + i else i)
      in if 0 \<le> j \<and> j < n then Inr (a[nat j := np_float64 A v]) else Inl IndexError)"

definition zeros :: "'a arith \<Rightarrow> nat \<Rightarrow> 'a list" where
  "zeros A n = replicate n (np_float64 A (float_lit A 0))"

definition array2 :: "'a arith \<Rightarrow> 'a \<Rightarrow> 'a \<Rightarrow> 'a list" where
  "array2 A a b = [np_float64 A a, np_float64 A b]"

text \<open>
  The body of the loop, lines 96 to 101, for one value of \<^verbatim>\<open>i\<close>:
  \<^verbatim>\<open>normal\<close>, \<^verbatim>\<open>R\<close>, \<^verbatim>\<open>center\<close>, \<^verbatim>\<open>dtheta\<close>, the two stores and the new
  \<^verbatim>\<open>theta\<close>.
\<close>

definition step :: "'a arith \<Rightarrow> 'a \<Rightarrow> int \<Rightarrow> 'a frame \<Rightarrow> error + 'a frame" where
  "step A zt i f =
     and_then (op_truediv A (np_pi A) (float_lit A 2)) (\<lambda>h1.
     and_then (op_add A (var_theta f) h1) (\<lambda>a1.
     and_then (np_cos A a1) (\<lambda>n0.
     and_then (op_truediv A (np_pi A) (float_lit A 2)) (\<lambda>h2.
     and_then (op_add A (var_theta f) h2) (\<lambda>a2.
     and_then (np_sin A a2) (\<lambda>s.
     and_then (op_neg A s) (\<lambda>n1.
     let normal = array2 A n0 n1 in
     and_then (getitem (var_z f) (i - 1)) (\<lambda>zp.
     and_then (radius_of_curvature A zp zt (var_C f)) (\<lambda>R.
     and_then (getitem (var_x f) (i - 1)) (\<lambda>xp.
     and_then (getitem normal 0) (\<lambda>m0.
     and_then (op_mul A m0 R) (\<lambda>t0.
     and_then (op_add A xp t0) (\<lambda>cx.
     and_then (getitem (var_z f) (i - 1)) (\<lambda>zq.
     and_then (getitem normal 1) (\<lambda>m1.
     and_then (op_mul A m1 R) (\<lambda>t1.
     and_then (op_add A zq t1) (\<lambda>cz.
     let center = array2 A cx cz in
     and_then (op_truediv A (var_ds f) R) (\<lambda>dtheta.
     and_then (getitem (var_x f) (i - 1)) (\<lambda>xa.
     and_then (getitem (var_z f) (i - 1)) (\<lambda>za.
     and_then (getitem center 0) (\<lambda>c0.
     and_then (getitem center 1) (\<lambda>c1.
     and_then (rotate_point A xa za c0 c1 dtheta) (\<lambda>p.
     and_then (setitem A (var_x f) i (fst p)) (\<lambda>x'.
     and_then (setitem A (var_z f) i (snd p)) (\<lambda>z'.
     and_then (op_add A (var_theta f) dtheta) (\<lambda>theta'.
     Inr (f\<lparr>var_x := x', var_z := z', var_theta := theta'\<rparr>)
     ))))))))))))))))))))))))))"

text \<open>\<^verbatim>\<open>for i in range(1,N)\<close>: the body for each index in turn, until one raises.\<close>

fun for_range :: "'a arith \<Rightarrow> 'a \<Rightarrow> int list \<Rightarrow> 'a frame \<Rightarrow> error + 'a frame" where
  "for_range A zt [] f = Inr f"
| "for_range A zt (i # rest) f = and_then (step A zt i f) (for_range A zt rest)"

definition range_from :: "nat \<Rightarrow> nat \<Rightarrow> int list" where
  "range_from a b = map int [a..<b]"

text \<open>Lines 79 to 91: the arrays, the initial conditions, \<^verbatim>\<open>C\<close> and \<^verbatim>\<open>ds\<close>.\<close>

definition initial :: "'a arith \<Rightarrow> 'a \<Rightarrow> 'a \<Rightarrow> 'a \<Rightarrow> error + 'a frame" where
  "initial A zt z0 theta0 =
     (let z = zeros A N; x = zeros A N in
      and_then (setitem A z 0 z0) (\<lambda>z.
      and_then (setitem A x 0 (float_lit A 0)) (\<lambda>x.
      let theta = theta0 in
      and_then (np_cos A theta) (\<lambda>c.
      and_then (op_truediv A (float_lit A 1) (float_lit A 3)) (\<lambda>third.
      and_then (getitem z 0) (\<lambda>za.
      and_then (op_mul A third za) (\<lambda>m.
      and_then (op_truediv A m zt) (\<lambda>q.
      and_then (op_sub A c q) (\<lambda>lhs.
      and_then (getitem z 0) (\<lambda>zb.
      and_then (op_truediv A zb zt) (\<lambda>r.
      and_then (op_pow A r (float_lit A (1/2))) (\<lambda>rhs.
      and_then (op_mul A lhs rhs) (\<lambda>C.
      let ds = float_lit A 1 in
      Inr \<lparr>var_x = x, var_z = z, var_theta = theta, var_C = C, var_ds = ds\<rparr>
      )))))))))))))"

definition plot_flight_path :: "'a arith \<Rightarrow> 'a \<Rightarrow> 'a \<Rightarrow> 'a \<Rightarrow> error + 'a frame" where
  "plot_flight_path A zt z0 theta0 =
     and_then (initial A zt z0 theta0) (for_range A zt (range_from 1 N))"

text \<open>
  The frame after the first \<open>k\<close> turns of the loop (\<^verbatim>\<open>i = 1, ..., k\<close>), for stating
  what one turn does to the frame the turn before left.
\<close>

definition after_turns :: "'a arith \<Rightarrow> 'a \<Rightarrow> 'a \<Rightarrow> 'a \<Rightarrow> nat \<Rightarrow> error + 'a frame" where
  "after_turns A zt z0 theta0 k =
     and_then (initial A zt z0 theta0) (for_range A zt (range_from 1 (Suc k)))"

subsection \<open>First reading: exact real arithmetic\<close>

text \<open>
  Every operator is the operation on real numbers, where that is defined: a division by
  zero and a power with no real value are errors. The constants are the numbers the
  source text names (\<open>np_pi\<close> is \<open>\<pi>\<close>), and an array cell holds the number stored.
\<close>

definition real_pow :: "real \<Rightarrow> real \<Rightarrow> error + real" where
  "real_pow a b =
     (if b = of_int \<lfloor>b\<rfloor> then
        (if a = 0 \<and> b < 0 then Inl ZeroDivisionError else Inr (a powi \<lfloor>b\<rfloor>))
      else if 0 < a then Inr (a powr b)
      else if a = 0 then (if 0 < b then Inr 0 else Inl ZeroDivisionError)
      else Inl ComplexResult)"

definition real_arith :: "real arith" where
  "real_arith =
     \<lparr>op_add = (\<lambda>a b. Inr (a + b)),
      op_sub = (\<lambda>a b. Inr (a - b)),
      op_mul = (\<lambda>a b. Inr (a * b)),
      op_truediv = (\<lambda>a b. if b = 0 then Inl ZeroDivisionError else Inr (a / b)),
      op_pow = real_pow,
      op_neg = (\<lambda>a. Inr (- a)),
      np_cos = (\<lambda>a. Inr (cos a)),
      np_sin = (\<lambda>a. Inr (sin a)),
      float_lit = (\<lambda>q. q),
      np_pi = pi,
      np_float64 = (\<lambda>a. a)\<rparr>"

subsection \<open>IEEE 754 binary64\<close>

text \<open>
  A binary64 value is a finite number with a sign (so that there are two zeros), an
  infinity with a sign, or a NaN. \<open>Fin s m\<close> is the number of magnitude \<open>m\<close>, negative
  when \<open>s\<close> holds. The arithmetic is round-to-nearest, ties to even: \<open>round_mag\<close> rounds a
  magnitude to 53 significant bits, with the exponent of the last bit not below \<open>-1074\<close>
  (gradual underflow), and \<open>rnd\<close> turns a rounded magnitude of \<open>2 ^ 1024\<close> or more into an
  infinity.
\<close>

datatype f64 = Fin bool real | Infty bool | NaN

definition sval :: "bool \<Rightarrow> real \<Rightarrow> real" where
  "sval s m = (if s then - m else m)"

definition ilog2 :: "real \<Rightarrow> int" where
  "ilog2 x = (if 0 < x then \<lfloor>log 2 x\<rfloor> else 0)"

definition rne :: "real \<Rightarrow> int" where
  "rne y =
     (let f = \<lfloor>y\<rfloor> in
      if y - of_int f < 1/2 then f
      else if 1/2 < y - of_int f then f + 1
      else if even f then f else f + 1)"

definition round_mag :: "real \<Rightarrow> real" where
  "round_mag q =
     (if q \<le> 0 then 0
      else let e = max (ilog2 q) (- 1022) - 52 in of_int (rne (q / 2 powi e)) * 2 powi e)"

definition rnd :: "bool \<Rightarrow> real \<Rightarrow> f64" where
  "rnd s q = (let r = round_mag q in if 2 ^ 1024 \<le> r then Infty s else Fin s r)"

definition round_real :: "real \<Rightarrow> f64" where
  "round_real r = (if r = 0 then Fin False 0 else rnd (r < 0) \<bar>r\<bar>)"

text \<open>
  The magnitudes of the finite binary64 numbers are the numbers below \<open>2 ^ 1024\<close> that
  rounding leaves as they are.
\<close>

definition representable :: "real \<Rightarrow> bool" where
  "representable q = (0 \<le> q \<and> q < 2 ^ 1024 \<and> round_mag q = q)"

fun fneg :: "f64 \<Rightarrow> f64" where
  "fneg (Fin s m) = Fin (\<not> s) m"
| "fneg (Infty s) = Infty (\<not> s)"
| "fneg NaN = NaN"

fun fadd :: "f64 \<Rightarrow> f64 \<Rightarrow> f64" where
  "fadd (Fin s a) (Fin t b) =
     (let r = sval s a + sval t b in if r = 0 then Fin (s \<and> t) 0 else rnd (r < 0) \<bar>r\<bar>)"
| "fadd (Fin s a) (Infty t) = Infty t"
| "fadd (Infty s) (Fin t b) = Infty s"
| "fadd (Infty s) (Infty t) = (if s = t then Infty s else NaN)"
| "fadd NaN y = NaN"
| "fadd x NaN = NaN"

definition fsub :: "f64 \<Rightarrow> f64 \<Rightarrow> f64" where
  "fsub x y = fadd x (fneg y)"

fun fmul :: "f64 \<Rightarrow> f64 \<Rightarrow> f64" where
  "fmul (Fin s a) (Fin t b) = rnd (s \<noteq> t) (a * b)"
| "fmul (Fin s a) (Infty t) = (if a = 0 then NaN else Infty (s \<noteq> t))"
| "fmul (Infty s) (Fin t b) = (if b = 0 then NaN else Infty (s \<noteq> t))"
| "fmul (Infty s) (Infty t) = Infty (s \<noteq> t)"
| "fmul NaN y = NaN"
| "fmul x NaN = NaN"

fun fdiv :: "f64 \<Rightarrow> f64 \<Rightarrow> f64" where
  "fdiv (Fin s a) (Fin t b) =
     (if b = 0 then (if a = 0 then NaN else Infty (s \<noteq> t)) else rnd (s \<noteq> t) (a / b))"
| "fdiv (Fin s a) (Infty t) = Fin (s \<noteq> t) 0"
| "fdiv (Infty s) (Fin t b) = Infty (s \<noteq> t)"
| "fdiv (Infty s) (Infty t) = NaN"
| "fdiv NaN y = NaN"
| "fdiv x NaN = NaN"

fun is_zero :: "f64 \<Rightarrow> bool" where
  "is_zero (Fin s m) = (m = 0)"
| "is_zero (Infty s) = False"
| "is_zero NaN = False"

text \<open>The comparison \<^verbatim>\<open>==\<close> of two floats: by value, a NaN equal to nothing.\<close>

fun feq :: "f64 \<Rightarrow> f64 \<Rightarrow> bool" where
  "feq (Fin s a) (Fin t b) = (sval s a = sval t b)"
| "feq (Infty s) (Infty t) = (s = t)"
| "feq x y = False"

subsection \<open>Second reading: Python floats and NumPy scalars\<close>

text \<open>
  A value is a Python \<^verbatim>\<open>float\<close> or a \<^verbatim>\<open>numpy.float64\<close>, both binary64. The
  elementary functions come from the platform's mathematical library and are parameters:
  \<open>m_cos\<close> and \<open>m_sin\<close> are what \<^verbatim>\<open>numpy.cos\<close> and \<^verbatim>\<open>numpy.sin\<close> compute, \<open>m_pow\<close>
  is the library's \<^verbatim>\<open>pow\<close>.
\<close>

datatype pyval = PyFloat f64 | NpFloat f64

record platform =
  m_cos :: "f64 \<Rightarrow> f64"
  m_sin :: "f64 \<Rightarrow> f64"
  m_pow :: "f64 \<Rightarrow> f64 \<Rightarrow> f64"

fun float_of :: "pyval \<Rightarrow> f64" where
  "float_of (PyFloat a) = a"
| "float_of (NpFloat a) = a"

fun is_np :: "pyval \<Rightarrow> bool" where
  "is_np (PyFloat a) = False"
| "is_np (NpFloat a) = True"

definition py_eq :: "pyval \<Rightarrow> pyval \<Rightarrow> bool" where
  "py_eq v w = feq (float_of v) (float_of w)"

text \<open>
  \<^verbatim>\<open>float.__pow__\<close> of two Python floats, after CPython's \<^verbatim>\<open>float_pow\<close>: the special
  cases first; a zero to a negative power raises; otherwise the library's \<^verbatim>\<open>pow\<close> on the
  magnitude, and an infinite result of it raises \<^verbatim>\<open>OverflowError\<close>. A negative base
  to a power that is not an integer is handed to the complex power: that one raises
  \<^verbatim>\<open>OverflowError\<close> when the modulus \<^verbatim>\<open>pow(|v|, w)\<close> is infinite, and returns a
  complex number otherwise. A complex number is not a value of this model: the
  computation ends there with \<open>ComplexResult\<close>.
\<close>

definition odd_integer :: "real \<Rightarrow> bool" where
  "odd_integer y = (y = of_int \<lfloor>y\<rfloor> \<and> odd \<lfloor>y\<rfloor>)"

definition float_pow :: "platform \<Rightarrow> f64 \<Rightarrow> f64 \<Rightarrow> error + f64" where
  "float_pow L v w =
     (if is_zero w then Inr (Fin False 1)
      else case v of
        NaN \<Rightarrow> Inr NaN
      | Infty s \<Rightarrow>
          (case w of
             NaN \<Rightarrow> Inr NaN
           | Infty t \<Rightarrow> Inr (if t then Fin False 0 else Infty False)
           | Fin t b \<Rightarrow>
               Inr (if t then Fin (s \<and> odd_integer b) 0 else Infty (s \<and> odd_integer b)))
      | Fin s a \<Rightarrow>
          (case w of
             NaN \<Rightarrow> Inr (if \<not> s \<and> a = 1 then Fin False 1 else NaN)
           | Infty t \<Rightarrow>
               Inr (if a = 1 then Fin False 1
                    else if (\<not> t) = (1 < a) then Infty False else Fin False 0)
           | Fin t b \<Rightarrow>
               if a = 0 then
                 (if t then Inl ZeroDivisionError else Inr (Fin (s \<and> odd_integer b) 0))
               else if s \<and> b \<noteq> of_int \<lfloor>b\<rfloor> then
                 (case m_pow L (Fin False a) (Fin t b) of
                    Infty u \<Rightarrow> Inl OverflowError
                  | NaN \<Rightarrow> Inl ComplexResult
                  | Fin u r \<Rightarrow> Inl ComplexResult)
               else if a = 1 then Inr (Fin (s \<and> odd_integer b) 1)
               else (case m_pow L (Fin False a) (Fin t b) of
                       Infty u \<Rightarrow> Inl OverflowError
                     | NaN \<Rightarrow> Inr NaN
                     | Fin u r \<Rightarrow> Inr (Fin (u \<noteq> (s \<and> odd_integer b)) r))))"

text \<open>
  An operator with a \<^verbatim>\<open>numpy.float64\<close> operand is NumPy's: its result is a
  \<^verbatim>\<open>numpy.float64\<close>, and under \<^verbatim>\<open>numpy.seterr(all='ignore')\<close> (line 7) it returns the
  IEEE result and raises nothing. On two Python floats the operator is the
  interpreter's: \<^verbatim>\<open>+ - *\<close> return the IEEE result, \<^verbatim>\<open>/\<close> raises
  \<^verbatim>\<open>ZeroDivisionError\<close> on a zero divisor, \<^verbatim>\<open>**\<close> is \<open>float_pow\<close>.
\<close>

definition result_of :: "pyval \<Rightarrow> pyval \<Rightarrow> f64 \<Rightarrow> pyval" where
  "result_of v w r = (if is_np v \<or> is_np w then NpFloat r else PyFloat r)"

definition py_add :: "pyval \<Rightarrow> pyval \<Rightarrow> error + pyval" where
  "py_add v w = Inr (result_of v w (fadd (float_of v) (float_of w)))"

definition py_sub :: "pyval \<Rightarrow> pyval \<Rightarrow> error + pyval" where
  "py_sub v w = Inr (result_of v w (fsub (float_of v) (float_of w)))"

definition py_mul :: "pyval \<Rightarrow> pyval \<Rightarrow> error + pyval" where
  "py_mul v w = Inr (result_of v w (fmul (float_of v) (float_of w)))"

definition py_truediv :: "pyval \<Rightarrow> pyval \<Rightarrow> error + pyval" where
  "py_truediv v w =
     (if \<not> is_np v \<and> \<not> is_np w \<and> is_zero (float_of w) then Inl ZeroDivisionError
      else Inr (result_of v w (fdiv (float_of v) (float_of w))))"

definition py_pow :: "platform \<Rightarrow> pyval \<Rightarrow> pyval \<Rightarrow> error + pyval" where
  "py_pow L v w =
     (if is_np v \<or> is_np w then Inr (NpFloat (m_pow L (float_of v) (float_of w)))
      else and_then (float_pow L (float_of v) (float_of w)) (\<lambda>r. Inr (PyFloat r)))"

definition py_neg :: "pyval \<Rightarrow> error + pyval" where
  "py_neg v = Inr (result_of v v (fneg (float_of v)))"

definition py_arith :: "platform \<Rightarrow> pyval arith" where
  "py_arith L =
     \<lparr>op_add = py_add,
      op_sub = py_sub,
      op_mul = py_mul,
      op_truediv = py_truediv,
      op_pow = py_pow L,
      op_neg = py_neg,
      np_cos = (\<lambda>v. Inr (NpFloat (m_cos L (float_of v)))),
      np_sin = (\<lambda>v. Inr (NpFloat (m_sin L (float_of v)))),
      float_lit = (\<lambda>q. PyFloat (round_real q)),
      np_pi = PyFloat (Fin False (884279719003555 / 281474976710656)),
      np_float64 = (\<lambda>v. NpFloat (float_of v))\<rparr>"

subsection \<open>A reference platform\<close>

text \<open>
  The correctly rounded cosine, sine and power, with the special values of IEEE 754 and
  C Annex F: \<open>cos (\<plusminus>0) = 1\<close>, \<open>sin (\<plusminus>0) = \<plusminus>0\<close>, \<open>pow (x, \<plusminus>0) = 1\<close>, \<open>pow (1, y) = 1\<close>.
  A library need not round correctly; the values at these points are the same in all.
\<close>

definition cr_cos :: "f64 \<Rightarrow> f64" where
  "cr_cos x = (case x of Fin s m \<Rightarrow> round_real (cos (sval s m)) | Infty s \<Rightarrow> NaN | NaN \<Rightarrow> NaN)"

definition cr_sin :: "f64 \<Rightarrow> f64" where
  "cr_sin x =
     (case x of
        Fin s m \<Rightarrow> (if m = 0 then Fin s 0 else round_real (sin (sval s m)))
      | Infty s \<Rightarrow> NaN
      | NaN \<Rightarrow> NaN)"

definition cr_pow :: "f64 \<Rightarrow> f64 \<Rightarrow> f64" where
  "cr_pow x y =
     (if is_zero y then Fin False 1
      else if x = Fin False 1 then Fin False 1
      else case x of
        NaN \<Rightarrow> NaN
      | Infty s \<Rightarrow>
          (case y of
             NaN \<Rightarrow> NaN
           | Infty t \<Rightarrow> (if t then Fin False 0 else Infty False)
           | Fin t b \<Rightarrow>
               (if t then Fin (s \<and> odd_integer b) 0 else Infty (s \<and> odd_integer b)))
      | Fin s a \<Rightarrow>
          (case y of
             NaN \<Rightarrow> NaN
           | Infty t \<Rightarrow>
               (if a = 1 then Fin False 1
                else if (\<not> t) = (1 < a) then Infty False else Fin False 0)
           | Fin t b \<Rightarrow>
               if a = 0 then
                 (if t then Infty (s \<and> odd_integer b) else Fin (s \<and> odd_integer b) 0)
               else if s \<and> b \<noteq> of_int \<lfloor>b\<rfloor> then NaN
               else rnd (s \<and> odd_integer b) (a powr sval t b)))"

definition reference :: platform where
  "reference = \<lparr>m_cos = cr_cos, m_sin = cr_sin, m_pow = cr_pow\<rparr>"

section \<open>Properties\<close>

subsection \<open>Sequencing\<close>

lemma and_then_Inr [simp]: "and_then (Inr v) f = f v"
  by (simp add: and_then_def)

lemma and_then_Inl [simp]: "and_then (Inl e) f = Inl e"
  by (simp add: and_then_def)

lemma and_then_eq_Inr: "(and_then m f = Inr r) = (\<exists>v. m = Inr v \<and> f v = Inr r)"
  by (cases m) simp_all

subsection \<open>The functions in exact real arithmetic\<close>

lemma real_ops [simp]:
  "op_add real_arith a b = Inr (a + b)"
  "op_sub real_arith a b = Inr (a - b)"
  "op_mul real_arith a b = Inr (a * b)"
  "op_truediv real_arith a b = (if b = 0 then Inl ZeroDivisionError else Inr (a / b))"
  "op_pow real_arith = real_pow"
  "op_neg real_arith a = Inr (- a)"
  "np_cos real_arith a = Inr (cos a)"
  "np_sin real_arith a = Inr (sin a)"
  "float_lit real_arith q = q"
  "np_pi real_arith = pi"
  "np_float64 real_arith a = a"
  by (simp_all add: real_arith_def)

lemma rotate_real:
  "rotate_point real_arith x z xc zc a =
     Inr (xc + ((x - xc) * cos a + (z - zc) * sin a), zc + (- (x - xc) * sin a + (z - zc) * cos a))"
  by (simp add: rotate_point_def algebra_simps)

lemma rigid_square:
  fixes u v c s :: real
  assumes "s\<^sup>2 + c\<^sup>2 = 1"
  shows "(u * c + v * s)\<^sup>2 + (- u * s + v * c)\<^sup>2 = u\<^sup>2 + v\<^sup>2"
proof -
  have "(u * c + v * s)\<^sup>2 + (- u * s + v * c)\<^sup>2 = (u\<^sup>2 + v\<^sup>2) * (s\<^sup>2 + c\<^sup>2)"
    by (simp add: power2_eq_square algebra_simps)
  then show ?thesis
    using assms by simp
qed

text \<open>
  C10. In exact real arithmetic \<^verbatim>\<open>rotate\<close> is a rigid rotation about its center: it
  returns a point, and the squared distance of that point to the center
  \<open>(xCenter, zCenter)\<close> is the squared distance of \<open>(x, z)\<close> to the center.
\<close>

theorem rotate_preserves_distance:
  "\<exists>xn zn. rotate_point real_arith x z xCenter zCenter angle = Inr (xn, zn) \<and>
     (xn - xCenter)\<^sup>2 + (zn - zCenter)\<^sup>2 = (x - xCenter)\<^sup>2 + (z - zCenter)\<^sup>2"
proof -
  have "((x - xCenter) * cos angle + (z - zCenter) * sin angle)\<^sup>2
          + (- (x - xCenter) * sin angle + (z - zCenter) * cos angle)\<^sup>2
      = (x - xCenter)\<^sup>2 + (z - zCenter)\<^sup>2"
    by (rule rigid_square) simp
  then show ?thesis
    unfolding rotate_real by simp
qed

lemma real_pow_one: "real_pow 1 (3/2) = Inr 1"
proof -
  have "\<lfloor>(3::real)/2\<rfloor> = 1" by simp
  then show ?thesis by (simp add: real_pow_def)
qed

subsection \<open>Rounding at the numbers used below\<close>

text \<open>The binary exponent is computed by halving and doubling.\<close>

lemma ilog2_code [code]:
  "ilog2 x =
     (if 0 < x then
        (if x < 1 then ilog2 (2 * x) - 1 else if 2 \<le> x then ilog2 (x / 2) + 1 else 0)
      else 0)"
proof (cases "0 < x")
  case False
  then show ?thesis by (simp add: ilog2_def)
next
  case True
  have a: "log 2 (2 * x) = 1 + log 2 x"
    using True by (simp add: log_mult)
  have b: "log 2 (x / 2) = log 2 x - 1"
    using True by (simp add: log_divide)
  have c: "\<lfloor>log 2 x\<rfloor> = 0" if "1 \<le> x" "x < 2"
  proof -
    have "0 \<le> log 2 x" using that by simp
    moreover have "log 2 x < 1" using that True by (simp add: log_less_iff)
    ultimately show ?thesis by linarith
  qed
  show ?thesis
    using True by (auto simp add: ilog2_def a b c)
qed

lemma ilog2_eqI: "2 powi k \<le> x \<Longrightarrow> x < 2 powi (k + 1) \<Longrightarrow> ilog2 x = k"
proof -
  assume a: "2 powi k \<le> x" and b: "x < 2 powi (k + 1)"
  have "0 < (2::real) powi k" by simp
  with a have x: "0 < x" by linarith
  have c: "(2::real) powr (real_of_int k + 1) = 2 powi (k + 1)"
    using powr_real_of_int'[of 2 "k + 1"] by simp
  show ?thesis unfolding ilog2_def
    using a b x by (simp add: floor_log_eq_powr_iff powr_real_of_int' c)
qed

lemma round_real_lits [simp]:
  "round_real 0 = Fin False 0"
  "round_real 1 = Fin False 1"
  "round_real 2 = Fin False 2"
  "round_real 3 = Fin False 3"
  "round_real (3/2) = Fin False (3/2)"
  "round_real (1/2) = Fin False (1/2)"
proof -
  show "round_real 0 = Fin False 0" by (simp add: round_real_def)
  show "round_real 1 = Fin False 1"
    by (simp add: round_real_def rnd_def round_mag_def ilog2_eqI[of 0] rne_def Let_def)
  show "round_real 2 = Fin False 2"
    by (simp add: round_real_def rnd_def round_mag_def ilog2_eqI[of 1] rne_def Let_def)
  show "round_real 3 = Fin False 3"
    by (simp add: round_real_def rnd_def round_mag_def ilog2_eqI[of 1] rne_def Let_def)
  show "round_real (3/2) = Fin False (3/2)"
    by (simp add: round_real_def rnd_def round_mag_def ilog2_eqI[of 0] rne_def Let_def)
  show "round_real (1/2) = Fin False (1/2)"
    by (simp add: round_real_def rnd_def round_mag_def ilog2_eqI[of "-1"] rne_def Let_def)
qed

lemma third: "fdiv (Fin False 1) (Fin False 3) = Fin False (6004799503160661 / 18014398509481984)"
  by (simp add: rnd_def round_mag_def ilog2_eqI[of "-2"] rne_def Let_def)

lemma half: "fdiv (Fin False 1) (Fin False 2) = Fin False (1/2)"
  by (simp add: rnd_def round_mag_def ilog2_eqI[of "-1"] rne_def Let_def)

lemma rnd_representable: "representable q \<Longrightarrow> rnd s q = Fin s q"
  by (simp add: representable_def rnd_def)

lemma ilog2_bounds:
  assumes "0 < x"
  shows "2 powi (ilog2 x) \<le> x" and "x < 2 powi (ilog2 x + 1)"
proof -
  have "\<lfloor>log 2 x\<rfloor> = ilog2 x"
    using assms by (simp add: ilog2_def)
  then have "2 powr (real_of_int (ilog2 x)) \<le> x \<and> x < 2 powr (real_of_int (ilog2 x + 1))"
    using assms floor_log_eq_powr_iff [of x 2 "ilog2 x"] by simp
  moreover have "(2::real) powr (real_of_int (ilog2 x + 1)) = 2 powi (ilog2 x + 1)"
    by (rule powr_real_of_int') simp_all
  moreover have "(2::real) powr (real_of_int (ilog2 x)) = 2 powi (ilog2 x)"
    by (rule powr_real_of_int') simp_all
  ultimately show "2 powi (ilog2 x) \<le> x" and "x < 2 powi (ilog2 x + 1)"
    by simp_all
qed

lemma rne_near:
  assumes "of_int n \<le> y" and "y < of_int n + 1/2"
  shows "rne y = n"
proof -
  have "\<lfloor>y\<rfloor> = n"
    using assms by linarith
  then show ?thesis
    using assms by (simp add: rne_def)
qed

lemma round_near:
  assumes rep: "representable y" and pos: "0 < y"
    and lo: "y \<le> q" and hi: "q \<le> y * (1 + 1 / (2 ^ 54 - 1))"
  shows "round_mag q = y"
proof -
  define k where "k = ilog2 y"
  define K where "K = max k (- 1022)"
  define e where "e = K - 52"
  define n where "n = rne (y / 2 powi e)"
  have p: "0 < (2::real) powi e"
    by simp
  have "round_mag y = y"
    using rep by (simp add: representable_def)
  then have y: "y = of_int n * 2 powi e"
    using pos by (simp add: round_mag_def Let_def n_def e_def K_def k_def)
  have kb: "2 powi k \<le> y" "y < 2 powi (k + 1)"
    using ilog2_bounds [OF pos] by (simp_all add: k_def)
  have "(2::real) powi (k + 1) \<le> 2 powi (K + 1)"
    by (rule power_int_increasing) (simp_all add: K_def)
  with kb(2) have yK: "y < 2 powi (K + 1)"
    by linarith
  have split: "(2::real) powi (K + 1) = 2 ^ 53 * 2 powi e"
    by (simp add: e_def power_int_diff power_int_add)
  from yK y split have "of_int n * 2 powi e < 2 ^ 53 * (2::real) powi e"
    by simp
  with p have "real_of_int n < 2 ^ 53"
    by simp
  then have nlt: "n < 2 ^ 53"
    by (metis of_int_less_iff of_int_numeral of_int_power)
  then have nle: "real_of_int n \<le> 2 ^ 53 - 1"
    by (metis (mono_tags) of_int_le_iff of_int_numeral of_int_power of_int_diff of_int_1 zle_diff1_eq)
  from pos y p have npos: "0 < real_of_int n"
    by (metis zero_less_mult_pos2)
  have qpos: "0 < q"
    using pos lo by linarith
  have frac: "real_of_int n * (1 / (2 ^ 54 - 1)) < 1 / 2"
    using nle by simp
  have qe: "q / 2 powi e \<le> of_int n * (1 + 1 / (2 ^ 54 - 1))"
  proof -
    have "q / 2 powi e \<le> (y * (1 + 1 / (2 ^ 54 - 1))) / 2 powi e"
      by (rule divide_right_mono [OF hi]) simp
    also have "\<dots> = of_int n * (1 + 1 / (2 ^ 54 - 1))"
      using y by simp
    finally show ?thesis .
  qed
  have qlo: "of_int n \<le> q / 2 powi e"
  proof -
    have "y / 2 powi e \<le> q / 2 powi e"
      by (rule divide_right_mono [OF lo]) simp
    then show ?thesis
      using y by simp
  qed
  have qhi: "q / 2 powi e < of_int n + 1 / 2"
    using qe frac by (simp add: algebra_simps)
  have "q / 2 powi e < 2 ^ 53"
    using qhi nle by linarith
  then have "q < 2 ^ 53 * 2 powi e"
    using p by (simp add: pos_divide_less_eq)
  then have qK: "q < 2 powi (K + 1)"
    using split by simp
  have up: "ilog2 q \<le> K"
  proof (rule ccontr)
    assume "\<not> ilog2 q \<le> K"
    then have "K + 1 \<le> ilog2 q"
      by simp
    then have "(2::real) powi (K + 1) \<le> 2 powi (ilog2 q)"
      by (intro power_int_increasing) simp_all
    with ilog2_bounds(1) [OF qpos] qK show False
      by linarith
  qed
  have down: "k \<le> ilog2 q"
  proof (rule ccontr)
    assume "\<not> k \<le> ilog2 q"
    then have "ilog2 q + 1 \<le> k"
      by simp
    then have "(2::real) powi (ilog2 q + 1) \<le> 2 powi k"
      by (intro power_int_increasing) simp_all
    with ilog2_bounds(2) [OF qpos] kb(1) lo show False
      by linarith
  qed
  have "max (ilog2 q) (- 1022) = K"
    using up down unfolding K_def by linarith
  then have "round_mag q = of_int (rne (q / 2 powi e)) * 2 powi e"
    using qpos by (simp add: round_mag_def Let_def e_def)
  also have "rne (q / 2 powi e) = n"
    using qlo qhi by (rule rne_near)
  finally show ?thesis
    using y by simp
qed

lemma rnd_zero: "rnd s 0 = Fin s 0"
  by (simp add: rnd_def round_mag_def)

lemma third_representable: "representable (6004799503160661 / 18014398509481984)"
  by (simp add: representable_def round_mag_def ilog2_eqI[of "-2"] rne_def Let_def)

lemma small_representable: "representable 1" "representable 2" "representable 3" "representable 5"
proof -
  show "representable 1"
    by (simp add: representable_def round_mag_def ilog2_eqI[of 0] rne_def Let_def)
  show "representable 2"
    by (simp add: representable_def round_mag_def ilog2_eqI[of 1] rne_def Let_def)
  show "representable 3"
    by (simp add: representable_def round_mag_def ilog2_eqI[of 1] rne_def Let_def)
  show "representable 5"
    by (simp add: representable_def round_mag_def ilog2_eqI[of 2] rne_def Let_def)
qed

lemma quotient_by_third:
  assumes "0 < m" and "representable (3 * m)"
  shows "fdiv (Fin s m) (Fin False (6004799503160661 / 18014398509481984)) = Fin s (3 * m)"
proof -
  have q: "m / (6004799503160661 / 18014398509481984) = 3 * m * (1 + 1 / (2 ^ 54 - 1))"
    by simp
  have "round_mag (m / (6004799503160661 / 18014398509481984)) = 3 * m"
  proof (rule round_near [OF assms(2)])
    show "0 < 3 * m" using assms(1) by simp
    show "3 * m \<le> m / (6004799503160661 / 18014398509481984)"
      using assms(1) by simp
    show "m / (6004799503160661 / 18014398509481984) \<le> 3 * m * (1 + 1 / (2 ^ 54 - 1))"
      unfolding q by simp
  qed
  then show ?thesis
    using assms(2) by (simp add: rnd_def representable_def)
qed

lemma fadd_exact:
  assumes "representable \<bar>r\<bar>" and "r = sval s a + sval t b"
  shows "\<exists>u. fadd (Fin s a) (Fin t b) = Fin u \<bar>r\<bar> \<and> sval u \<bar>r\<bar> = r"
proof (cases "r = 0")
  case True
  then show ?thesis
    using assms(2) by (auto simp add: sval_def)
next
  case False
  have "fadd (Fin s a) (Fin t b) = Fin (r < 0) \<bar>r\<bar>"
    using False assms by (simp add: Let_def rnd_representable)
  moreover have "sval (r < 0) \<bar>r\<bar> = r"
    by (simp add: sval_def)
  ultimately show ?thesis
    by blast
qed


subsection \<open>The functions on Python floats and NumPy scalars\<close>

lemma result_of_simps [simp]:
  "float_of (result_of v w r) = r"
  "is_np (result_of v w r) = (is_np v \<or> is_np w)"
  by (simp_all add: result_of_def)

lemma result_of_np: "is_np v \<or> is_np w \<Longrightarrow> result_of v w r = NpFloat r"
  by (simp add: result_of_def)

lemma py_ops [simp]:
  "op_add (py_arith L) = py_add"
  "op_sub (py_arith L) = py_sub"
  "op_mul (py_arith L) = py_mul"
  "op_truediv (py_arith L) = py_truediv"
  "op_pow (py_arith L) = py_pow L"
  "op_neg (py_arith L) = py_neg"
  "np_cos (py_arith L) v = Inr (NpFloat (m_cos L (float_of v)))"
  "np_sin (py_arith L) v = Inr (NpFloat (m_sin L (float_of v)))"
  "float_lit (py_arith L) q = PyFloat (round_real q)"
  "np_pi (py_arith L) = PyFloat (Fin False (884279719003555 / 281474976710656))"
  "np_float64 (py_arith L) v = NpFloat (float_of v)"
  by (simp_all add: py_arith_def)

lemma reference_simps [simp]:
  "m_cos reference = cr_cos" "m_sin reference = cr_sin" "m_pow reference = cr_pow"
  by (simp_all add: reference_def)

lemma cr_at_zero: "cr_cos (Fin False 0) = Fin False 1" "cr_sin (Fin False 0) = Fin False 0"
  by (simp_all add: cr_cos_def cr_sin_def sval_def)

lemma rotate_py:
  "rotate_point (py_arith L) x z xc zc a =
     Inr (NpFloat (fadd (float_of xc)
            (fadd (fmul (fsub (float_of x) (float_of xc)) (m_cos L (float_of a)))
                  (fmul (fsub (float_of z) (float_of zc)) (m_sin L (float_of a))))),
          NpFloat (fadd (float_of zc)
            (fadd (fmul (fneg (fsub (float_of x) (float_of xc))) (m_sin L (float_of a)))
                  (fmul (fsub (float_of z) (float_of zc)) (m_cos L (float_of a))))))"
  by (simp add: rotate_point_def py_add_def py_sub_def py_mul_def py_neg_def result_of_np)

lemma rnd_flip: "fneg (rnd s q) = rnd (\<not> s) q"
  by (simp add: rnd_def Let_def)

lemma fmul_fneg: "fmul (fneg a) b = fneg (fmul a b)"
  by (cases a; cases b) (auto simp add: rnd_flip)

lemma fadd_commute: "fadd a b = fadd b a"
  by (cases a; cases b) (auto simp add: Let_def add.commute conj_commute)

text \<open>
  C2. \<^verbatim>\<open>rotate\<close> returns the pair
  \<open>(xCenter + dx * cos angle + dz * sin angle, zCenter - dx * sin angle + dz * cos angle)\<close>
  with \<open>dx = x - xCenter\<close> and \<open>dz = z - zCenter\<close>: the plus sign on the first component,
  the minus sign on the second. On floats (Python or NumPy, any platform) it raises
  nothing and returns two \<^verbatim>\<open>numpy.float64\<close>, each operation of the formula being the
  binary64 one, the sums grouped as the source groups them (\<open>xCenter + (... + ...)\<close>, and
  \<open>- dx\<close> formed before the product); the second component is as well
  \<open>zCenter + (dz * cos angle - dx * sin angle)\<close>, with a binary64 subtraction. In exact
  real arithmetic the pair is the formula as written.
\<close>

theorem rotate_formula:
  "rotate_point (py_arith L) x z xCenter zCenter angle =
     Inr (NpFloat (fadd (float_of xCenter)
            (fadd (fmul (fsub (float_of x) (float_of xCenter)) (m_cos L (float_of angle)))
                  (fmul (fsub (float_of z) (float_of zCenter)) (m_sin L (float_of angle))))),
          NpFloat (fadd (float_of zCenter)
            (fadd (fmul (fneg (fsub (float_of x) (float_of xCenter))) (m_sin L (float_of angle)))
                  (fmul (fsub (float_of z) (float_of zCenter)) (m_cos L (float_of angle))))))
   \<and> fadd (fmul (fneg (fsub (float_of x) (float_of xCenter))) (m_sin L (float_of angle)))
           (fmul (fsub (float_of z) (float_of zCenter)) (m_cos L (float_of angle)))
     = fsub (fmul (fsub (float_of z) (float_of zCenter)) (m_cos L (float_of angle)))
            (fmul (fsub (float_of x) (float_of xCenter)) (m_sin L (float_of angle)))
   \<and> rotate_point real_arith x' z' xCenter' zCenter' angle' =
     Inr (xCenter' + (x' - xCenter') * cos angle' + (z' - zCenter') * sin angle',
          zCenter' - (x' - xCenter') * sin angle' + (z' - zCenter') * cos angle')"
proof -
  have "fadd (fmul (fneg a) s) b = fsub b (fmul a s)" for a s b
    unfolding fsub_def fmul_fneg by (rule fadd_commute)
  then show ?thesis
    by (simp add: rotate_py rotate_real algebra_simps del: fadd.simps fmul.simps fdiv.simps)
qed

lemma rotate_zero_py:
  assumes "m_cos L (Fin False 0) = Fin False 1" and "m_sin L (Fin False 0) = Fin False 0"
  shows "rotate_point (py_arith L) (PyFloat (Fin False 1)) (PyFloat (Fin False 0))
           (PyFloat (Fin False 36028797018963968)) (PyFloat (Fin False 0)) (PyFloat (Fin False 0))
         = Inr (NpFloat (Fin False 0), NpFloat (Fin False 0))"
proof -
  have dx: "fsub (Fin False 1) (Fin False 36028797018963968) = Fin True 36028797018963968"
    by (simp add: fsub_def sval_def rnd_def round_mag_def ilog2_eqI[of 54] rne_def Let_def)
  have m: "fmul (Fin True 36028797018963968) (Fin False 1) = Fin True 36028797018963968"
    by (simp add: rnd_def round_mag_def ilog2_eqI[of 55] rne_def Let_def)
  have a: "fadd (Fin True 36028797018963968) (Fin False 0) = Fin True 36028797018963968"
    by (simp add: sval_def rnd_def round_mag_def ilog2_eqI[of 55] rne_def Let_def)
  have b: "fadd (Fin False 36028797018963968) (Fin True 36028797018963968) = Fin False 0"
    by (simp add: sval_def)
  have c: "fsub (Fin False 0) (Fin False 0) = Fin False 0"
    by (simp add: fsub_def sval_def)
  have d: "fmul (Fin False 0) (Fin False 0) = Fin False 0"
    "fmul (Fin False 0) (Fin False 1) = Fin False 0"
    "fmul (Fin False 36028797018963968) (Fin False 0) = Fin False 0"
    by (simp_all add: rnd_def round_mag_def)
  have e: "fadd (Fin False 0) (Fin False 0) = Fin False 0"
    by (simp add: sval_def)
  show ?thesis
    unfolding rotate_py
    by (simp add: assms dx m a b c d e del: fadd.simps fmul.simps fdiv.simps)
qed

text \<open>
  C7, the claim as stated, fails on floats: \<^verbatim>\<open>rotate(1.0, 0.0, 2.0**55, 0.0, 0.0)\<close>
  returns \<open>(0.0, 0.0)\<close>, and \<open>0.0 == 1.0\<close> is false. The difference
  \<open>1 - 2^55\<close> rounds to \<open>- 2^55\<close>, and adding the center back gives \<open>0\<close>.
\<close>

theorem rotate_zero_float_counterexample:
  "rotate_point (py_arith reference) (PyFloat (Fin False 1)) (PyFloat (Fin False 0))
           (PyFloat (Fin False 36028797018963968)) (PyFloat (Fin False 0)) (PyFloat (Fin False 0))
         = Inr (NpFloat (Fin False 0), NpFloat (Fin False 0)) \<and>
   \<not> py_eq (NpFloat (Fin False 0)) (PyFloat (Fin False 1))"
  by (simp add: rotate_zero_py cr_at_zero py_eq_def sval_def)

lemma there_and_back:
  assumes m: "representable m" and d: "representable \<bar>sval s m - sval t c\<bar>"
    and e: "representable e"
  shows "\<exists>u. fsub (Fin s m) (Fin t c) = Fin u \<bar>sval s m - sval t c\<bar>
    \<and> feq (fadd (Fin t c) (fadd (fmul (Fin u \<bar>sval s m - sval t c\<bar>) (Fin False 1))
                                     (fmul (Fin v e) (Fin False 0)))) (Fin s m)
    \<and> feq (fadd (Fin t c) (fadd (fmul (Fin w e) (Fin False 0))
                                     (fmul (Fin u \<bar>sval s m - sval t c\<bar>) (Fin False 1)))) (Fin s m)"
proof -
  let ?r = "sval s m - sval t c"
  have "?r = sval s m + sval (\<not> t) c"
    by (simp add: sval_def)
  from fadd_exact [OF d this] obtain u where
    u: "fsub (Fin s m) (Fin t c) = Fin u \<bar>?r\<bar>" and su: "sval u \<bar>?r\<bar> = ?r"
    by (auto simp add: fsub_def)
  have one: "fmul (Fin u \<bar>?r\<bar>) (Fin False 1) = Fin u \<bar>?r\<bar>"
    by (simp add: rnd_representable d)
  have zero: "fmul (Fin b e) (Fin False 0) = Fin b 0" for b
    by (simp add: rnd_zero)
  have "?r = sval u \<bar>?r\<bar> + sval v 0"
    using su by (simp add: sval_def)
  from fadd_exact [OF d this] obtain p where
    p: "fadd (Fin u \<bar>?r\<bar>) (Fin v 0) = Fin p \<bar>?r\<bar>" and sp: "sval p \<bar>?r\<bar> = ?r"
    by blast
  have "?r = sval w 0 + sval u \<bar>?r\<bar>"
    using su by (simp add: sval_def)
  from fadd_exact [OF d this] obtain q where
    q: "fadd (Fin w 0) (Fin u \<bar>?r\<bar>) = Fin q \<bar>?r\<bar>" and sq: "sval q \<bar>?r\<bar> = ?r"
    by blast
  have mm: "\<bar>sval s m\<bar> = m"
    using m by (simp add: representable_def sval_def)
  have ret: "feq (fadd (Fin t c) (Fin b \<bar>?r\<bar>)) (Fin s m)" if "sval b \<bar>?r\<bar> = ?r" for b
  proof -
    have "sval s m = sval t c + sval b \<bar>?r\<bar>"
      using that by simp
    moreover have "representable \<bar>sval s m\<bar>"
      using m mm by simp
    ultimately obtain k where "fadd (Fin t c) (Fin b \<bar>?r\<bar>) = Fin k \<bar>sval s m\<bar>"
      and "sval k \<bar>sval s m\<bar> = sval s m"
      using fadd_exact [of "sval s m" t c b "\<bar>?r\<bar>"] by blast
    then show ?thesis
      by (simp add: mm)
  qed
  have "fsub (Fin s m) (Fin t c) = Fin u \<bar>?r\<bar>
    \<and> feq (fadd (Fin t c) (fadd (fmul (Fin u \<bar>?r\<bar>) (Fin False 1))
                                     (fmul (Fin v e) (Fin False 0)))) (Fin s m)
    \<and> feq (fadd (Fin t c) (fadd (fmul (Fin w e) (Fin False 0))
                                     (fmul (Fin u \<bar>?r\<bar>) (Fin False 1)))) (Fin s m)"
    unfolding one zero p q using u ret [OF sp] ret [OF sq] by blast
  then show ?thesis
    by (rule exI)
qed

lemma rotate_zero_float:
  assumes c: "m_cos L (Fin False 0) = Fin False 1" and s: "m_sin L (Fin False 0) = Fin False 0"
    and x: "float_of x = Fin sx mx" and xc: "float_of xc = Fin sxc mxc"
    and z: "float_of z = Fin sz mz" and zc: "float_of zc = Fin szc mzc"
    and a: "float_of angle = Fin False 0"
    and rx: "representable mx" and rz: "representable mz"
    and dx: "representable \<bar>sval sx mx - sval sxc mxc\<bar>"
    and dz: "representable \<bar>sval sz mz - sval szc mzc\<bar>"
  shows "\<exists>rx rz. rotate_point (py_arith L) x z xc zc angle = Inr (rx, rz)
     \<and> py_eq rx x \<and> py_eq rz z"
proof -
  let ?dx = "\<bar>sval sx mx - sval sxc mxc\<bar>" and ?dz = "\<bar>sval sz mz - sval szc mzc\<bar>"
  from there_and_back [OF rz dz dx] obtain uz where
    uz: "fsub (Fin sz mz) (Fin szc mzc) = Fin uz ?dz"
    by blast
  from there_and_back [OF rx dx dz, of uz] obtain ux where
    ux: "fsub (Fin sx mx) (Fin sxc mxc) = Fin ux ?dx" and
    fx: "feq (fadd (Fin sxc mxc) (fadd (fmul (Fin ux ?dx) (Fin False 1))
                                       (fmul (Fin uz ?dz) (Fin False 0)))) (Fin sx mx)"
    by blast
  from there_and_back [OF rz dz dx, of "\<not> ux"] uz have
    fz: "feq (fadd (Fin szc mzc) (fadd (fmul (Fin (\<not> ux) ?dx) (Fin False 0))
                                        (fmul (Fin uz ?dz) (Fin False 1)))) (Fin sz mz)"
    by auto
  show ?thesis
    unfolding rotate_py x xc z zc a c s ux uz
    using fx fz
    by (simp add: py_eq_def x z del: fadd.simps fmul.simps fdiv.simps feq.simps)
qed

text \<open>
  C7 (as amended). In exact real arithmetic a rotation by the angle \<open>0\<close> returns the
  point \<open>(x, z)\<close> itself, for every center. On floats, where the library gives
  \<open>cos 0.0 = 1.0\<close> and \<open>sin 0.0 = 0.0\<close>: for finite floats \<open>x\<close> and \<open>z\<close> and a finite
  center such that the differences \<open>x - xCenter\<close> and \<open>z - zCenter\<close> are themselves finite
  binary64 numbers (so that the two subtractions round nothing), the rotation by \<open>0.0\<close>
  raises nothing and returns a pair whose components compare equal (\<^verbatim>\<open>==\<close>) to \<open>x\<close>
  and \<open>z\<close>.
\<close>

theorem rotate_zero_identity:
  "rotate_point real_arith x z xCenter zCenter 0 = Inr (x, z) \<and>
   (m_cos L (Fin False 0) = Fin False 1 \<and> m_sin L (Fin False 0) = Fin False 0 \<and>
    float_of px = Fin sx mx \<and> float_of pxc = Fin sxc mxc \<and>
    float_of pz = Fin sz mz \<and> float_of pzc = Fin szc mzc \<and>
    float_of angle = Fin False 0 \<and>
    representable mx \<and> representable mz \<and>
    representable \<bar>sval sx mx - sval sxc mxc\<bar> \<and>
    representable \<bar>sval sz mz - sval szc mzc\<bar>
    \<longrightarrow> (\<exists>rx rz. rotate_point (py_arith L) px pz pxc pzc angle = Inr (rx, rz) \<and>
           py_eq rx px \<and> py_eq rz pz))"
  using rotate_zero_float [of L px sx mx pxc sxc mxc pz sz mz pzc szc mzc angle]
  by (simp add: rotate_real)

theorem rotate_zero_identity_witness:
  "rotate_point real_arith 3 2 1 5 0 = Inr (3, 2) \<and>
   m_cos reference (Fin False 0) = Fin False 1 \<and> m_sin reference (Fin False 0) = Fin False 0 \<and>
   representable 3 \<and> representable 2 \<and>
   representable \<bar>sval False 3 - sval False 1\<bar> \<and> representable \<bar>sval False 2 - sval False 5\<bar> \<and>
   (\<exists>rx rz. rotate_point (py_arith reference) (PyFloat (Fin False 3)) (PyFloat (Fin False 2))
        (PyFloat (Fin False 1)) (PyFloat (Fin False 5)) (PyFloat (Fin False 0)) = Inr (rx, rz) \<and>
      py_eq rx (PyFloat (Fin False 3)) \<and> py_eq rz (PyFloat (Fin False 2)))"
proof -
  have d: "\<bar>sval False 3 - sval False 1\<bar> = 2" "\<bar>sval False 2 - sval False 5\<bar> = 3"
    by (simp_all add: sval_def)
  show ?thesis
    using rotate_zero_identity [of 3 2 1 5 reference "PyFloat (Fin False 3)" False 3
        "PyFloat (Fin False 1)" False 1 "PyFloat (Fin False 2)" False 2
        "PyFloat (Fin False 5)" False 5 "PyFloat (Fin False 0)"]
    by (simp add: d small_representable cr_at_zero del: fadd.simps fmul.simps fdiv.simps)
qed

lemma roc_py:
  assumes "is_np z \<or> is_np zt"
  shows "radius_of_curvature (py_arith L) z zt C =
     Inr (NpFloat (fdiv (float_of zt)
        (fsub (fdiv (Fin False 1) (Fin False 3))
           (fmul (fdiv (float_of C) (Fin False 2))
              (m_pow L (fdiv (float_of zt) (float_of z)) (Fin False (3/2)))))))"
proof -
  have "is_np zt \<or> is_np z"
    using assms by blast
  then show ?thesis
    by (auto simp add: radius_of_curvature_def py_add_def py_sub_def py_mul_def py_truediv_def
        py_pow_def result_of_np)
qed

text \<open>
  C1 (as amended). When \<open>z\<close> or \<open>zt\<close> is a \<^verbatim>\<open>numpy.float64\<close> (at the one call of the
  module \<open>z\<close> is an element of the array), \<^verbatim>\<open>radius_of_curvature\<close> raises nothing and
  returns, as a \<^verbatim>\<open>numpy.float64\<close>, \<open>zt / (1/3 - (C/2) * (zt/z)^1.5)\<close> with every
  operation the binary64 one, infinities and NaNs included.
\<close>

theorem radius_of_curvature_numpy:
  "is_np z \<or> is_np zt \<Longrightarrow>
   radius_of_curvature (py_arith L) z zt C =
     Inr (NpFloat (fdiv (float_of zt)
        (fsub (fdiv (Fin False 1) (Fin False 3))
           (fmul (fdiv (float_of C) (Fin False 2))
              (m_pow L (fdiv (float_of zt) (float_of z)) (Fin False (3/2)))))))"
  by (rule roc_py)

theorem radius_of_curvature_numpy_witness:
  "(is_np (NpFloat (Fin False 0)) \<or> is_np (PyFloat (Fin False 1))) \<and>
   radius_of_curvature (py_arith reference) (NpFloat (Fin False 0)) (PyFloat (Fin False 1))
     (PyFloat (Fin False 1)) = Inr (NpFloat (Fin True 0))"
proof -
  have p: "cr_pow (Infty False) (Fin False (3/2)) = Infty False"
    by (simp add: cr_pow_def)
  have v: "fdiv (Fin False 1)
      (fsub (fdiv (Fin False 1) (Fin False 3))
         (fmul (fdiv (Fin False 1) (Fin False 2))
            (cr_pow (fdiv (Fin False 1) (Fin False 0)) (Fin False (3/2))))) = Fin True 0"
    unfolding third half by (simp add: p fsub_def)
  show ?thesis
    using radius_of_curvature_numpy [of "NpFloat (Fin False 0)" "PyFloat (Fin False 1)"
        reference "PyFloat (Fin False 1)"]
    by (simp add: v del: fadd.simps fmul.simps fdiv.simps)
qed

text \<open>
  C1, the claim as stated, fails on Python floats:
  \<^verbatim>\<open>radius_of_curvature(0.0, 1.0, 1.0)\<close> raises \<^verbatim>\<open>ZeroDivisionError\<close> at
  \<^verbatim>\<open>zt/z\<close> and returns no infinity.
\<close>

theorem radius_of_curvature_float_zero_raises:
  "radius_of_curvature (py_arith reference) (PyFloat (Fin False 0)) (PyFloat (Fin False 1))
     (PyFloat (Fin False 1)) = Inl ZeroDivisionError"
  by (simp add: radius_of_curvature_def py_truediv_def)

lemma float_pow_one: "float_pow L (Fin False 1) (Fin False (3/2)) = Inr (Fin False 1)"
proof -
  have "\<lfloor>(3::real)/2\<rfloor> = 1" by simp
  then show ?thesis by (simp add: float_pow_def)
qed

lemma roc_trim_py:
  "radius_of_curvature (py_arith L) (PyFloat (Fin False 4503599627370499))
      (PyFloat (Fin False 4503599627370499)) (PyFloat (Fin False 0))
   = Inr (PyFloat (Fin False 13510798882111498))"
proof -
  have q: "fdiv (Fin False 4503599627370499) (Fin False 4503599627370499) = Fin False 1"
    by (simp add: rnd_def round_mag_def ilog2_eqI[of 0] rne_def Let_def)
  have h: "fdiv (Fin False 0) (Fin False 2) = Fin False 0"
    by (simp add: rnd_def round_mag_def)
  have m: "fmul (Fin False 0) (Fin False 1) = Fin False 0"
    by (simp add: rnd_def round_mag_def)
  have s: "fsub (Fin False (6004799503160661 / 18014398509481984)) (Fin False 0)
      = Fin False (6004799503160661 / 18014398509481984)"
    by (simp add: fsub_def sval_def rnd_def round_mag_def ilog2_eqI[of "-2"] rne_def Let_def)
  have r: "fdiv (Fin False 4503599627370499) (Fin False (6004799503160661 / 18014398509481984))
      = Fin False 13510798882111498"
    by (simp add: rnd_def round_mag_def ilog2_eqI[of 53] rne_def Let_def)
  show ?thesis
    by (simp add: radius_of_curvature_def py_truediv_def py_pow_def py_mul_def py_sub_def
        result_of_def third float_pow_one q h m s r del: fadd.simps fmul.simps fdiv.simps)
qed

text \<open>
  C8, the claim as stated, fails on floats: for \<open>zt = 2^52 + 3 = 4503599627370499.0\<close>,
  \<^verbatim>\<open>radius_of_curvature(zt, zt, 0.0)\<close> is \<open>13510798882111498.0\<close> and \<^verbatim>\<open>3.0*zt\<close> is
  \<open>13510798882111496.0\<close>. The exact product \<open>13510798882111497\<close> is not a binary64
  number; it lies halfway between the two, the product rounds to the even neighbour, and
  the quotient by the rounded \<open>1/3\<close>, which is slightly larger, rounds up.
\<close>

theorem radius_at_trim_float_counterexample:
  "radius_of_curvature (py_arith reference) (PyFloat (Fin False 4503599627370499))
      (PyFloat (Fin False 4503599627370499)) (PyFloat (Fin False 0))
   = Inr (PyFloat (Fin False 13510798882111498)) \<and>
   py_mul (PyFloat (Fin False 3)) (PyFloat (Fin False 4503599627370499))
   = Inr (PyFloat (Fin False 13510798882111496)) \<and>
   \<not> py_eq (PyFloat (Fin False 13510798882111498)) (PyFloat (Fin False 13510798882111496))"
proof -
  have "py_mul (PyFloat (Fin False 3)) (PyFloat (Fin False 4503599627370499))
     = Inr (PyFloat (Fin False 13510798882111496))"
    by (simp add: py_mul_def result_of_def rnd_def round_mag_def ilog2_eqI[of 53] rne_def Let_def)
  then show ?thesis
    by (simp add: roc_trim_py py_eq_def sval_def)
qed

lemma roc_trim_float:
  assumes pw: "m_pow L (Fin False 1) (Fin False (3/2)) = Fin False 1"
    and z: "float_of z = Fin s m" and zt: "float_of zt = Fin s m" and C: "float_of C = Fin False 0"
    and m: "0 < m" "representable (3 * m)"
  shows "\<exists>r. radius_of_curvature (py_arith L) z zt C = Inr r \<and> float_of r = Fin s (3 * m)"
proof -
  have ratio: "fdiv (Fin s m) (Fin s m) = Fin False 1"
    using m(1) by (simp add: rnd_representable small_representable)
  have h: "fdiv (Fin False 0) (Fin False 2) = Fin False 0"
    by (simp add: rnd_zero)
  have t: "fmul (Fin False 0) (Fin False 1) = Fin False 0"
    by (simp add: rnd_zero)
  have d: "fsub (Fin False (6004799503160661 / 18014398509481984)) (Fin False 0)
      = Fin False (6004799503160661 / 18014398509481984)"
    by (simp add: fsub_def sval_def rnd_representable third_representable)
  have fp: "float_pow L (Fin False 1) (Fin False (3/2)) = Inr (Fin False 1)"
    by (rule float_pow_one)
  from m(1) have mz: "m \<noteq> 0"
    by simp
  show ?thesis
    by (simp add: radius_of_curvature_def py_truediv_def py_pow_def py_mul_def py_sub_def
        z zt C third ratio h t d fp pw mz quotient_by_third [OF m]
        del: fadd.simps fmul.simps fdiv.simps)
qed

text \<open>
  C8 (as amended). In exact real arithmetic, at the trim depth (\<open>z = zt\<close>, \<open>zt\<close> not
  zero) and with \<open>C = 0\<close>, the radius of curvature is \<open>3 * zt\<close>. On floats, where the
  library gives \<open>pow (1.0, 1.5) = 1.0\<close>: for every finite float \<open>zt\<close>, not zero, whose
  triple \<open>3 * zt\<close> is itself a finite binary64 number, \<^verbatim>\<open>radius_of_curvature(zt, zt, 0.0)\<close>
  raises nothing and returns that number \<open>3 * zt\<close>, which is also what \<^verbatim>\<open>3.0 * zt\<close>
  computes, so that the two compare equal.
\<close>

theorem radius_at_trim:
  "(zt \<noteq> 0 \<longrightarrow> radius_of_curvature real_arith zt zt 0 = Inr (3 * zt)) \<and>
   (m_pow L (Fin False 1) (Fin False (3/2)) = Fin False 1 \<and>
    float_of pz = Fin s m \<and> float_of pzt = Fin s m \<and> float_of pC = Fin False 0 \<and>
    0 < m \<and> representable (3 * m)
    \<longrightarrow> (\<exists>r p. radius_of_curvature (py_arith L) pz pzt pC = Inr r \<and>
           py_mul (PyFloat (Fin False 3)) pzt = Inr p \<and>
           float_of r = Fin s (3 * m) \<and> float_of p = Fin s (3 * m) \<and> py_eq r p))"
proof -
  have "fmul (Fin False 3) (Fin s m) = Fin s (3 * m)" if "representable (3 * m)"
    using that by (simp add: rnd_representable)
  then show ?thesis
    using roc_trim_float [of L pz s m pzt pC]
    by (auto simp add: radius_of_curvature_def real_pow_one py_mul_def py_eq_def
        simp del: fadd.simps fmul.simps fdiv.simps)
qed

theorem radius_at_trim_witness:
  "(2::real) \<noteq> 0 \<and> radius_of_curvature real_arith 2 2 0 = Inr 6 \<and>
   m_pow reference (Fin False 1) (Fin False (3/2)) = Fin False 1 \<and>
   (0::real) < 1 \<and> representable (3 * 1) \<and>
   (\<exists>r p. radius_of_curvature (py_arith reference) (PyFloat (Fin False 1)) (PyFloat (Fin False 1))
        (PyFloat (Fin False 0)) = Inr r \<and>
      py_mul (PyFloat (Fin False 3)) (PyFloat (Fin False 1)) = Inr p \<and>
      float_of r = Fin False 3 \<and> float_of p = Fin False 3 \<and> py_eq r p)"
proof -
  have p: "cr_pow (Fin False 1) (Fin False (3/2)) = Fin False 1"
    by (simp add: cr_pow_def)
  show ?thesis
    using radius_at_trim [of 2 reference "PyFloat (Fin False 1)" False 1 "PyFloat (Fin False 1)"
        "PyFloat (Fin False 0)"]
    by (simp add: p small_representable del: fadd.simps fmul.simps fdiv.simps)
qed

subsection \<open>The loop, for every reading of the operators\<close>

lemma getitem_nat:
  "k < length a \<Longrightarrow> getitem a (int k) = Inr (a ! k)"
  by (simp add: getitem_def)

lemma getitem_pred:
  "1 \<le> k \<Longrightarrow> k \<le> length a \<Longrightarrow> getitem a (int k - 1) = Inr (a ! (k - 1))"
  using getitem_nat [of "k - 1" a] by (simp add: of_nat_diff)

lemma getitem_Inr_nat:
  "getitem a (int k) = Inr v \<Longrightarrow> k < length a \<and> v = a ! k"
  by (auto simp add: getitem_def split: if_splits)

lemma setitem_nat:
  "k < length a \<Longrightarrow> setitem A a (int k) v = Inr (a[k := np_float64 A v])"
  by (simp add: setitem_def)

lemma setitem_Inr_nat:
  "setitem A a (int k) v = Inr b \<Longrightarrow> k < length a \<and> b = a[k := np_float64 A v]"
  by (auto simp add: setitem_def split: if_splits)

lemma getitem_array2 [simp]:
  "getitem (array2 A a b) 0 = Inr (np_float64 A a)"
  "getitem (array2 A a b) 1 = Inr (np_float64 A b)"
  by (simp_all add: getitem_def array2_def)

lemma step_recurrence:
  assumes "step A zt i f = Inr g"
  shows "\<exists>h a n0 s n1 zp R xp t0 cx t1 cz dtheta p x' z'.
    op_truediv A (np_pi A) (float_lit A 2) = Inr h \<and>
    op_add A (var_theta f) h = Inr a \<and>
    np_cos A a = Inr n0 \<and> np_sin A a = Inr s \<and> op_neg A s = Inr n1 \<and>
    getitem (var_z f) (i - 1) = Inr zp \<and> getitem (var_x f) (i - 1) = Inr xp \<and>
    radius_of_curvature A zp zt (var_C f) = Inr R \<and>
    op_mul A (np_float64 A n0) R = Inr t0 \<and> op_add A xp t0 = Inr cx \<and>
    op_mul A (np_float64 A n1) R = Inr t1 \<and> op_add A zp t1 = Inr cz \<and>
    op_truediv A (var_ds f) R = Inr dtheta \<and>
    rotate_point A xp zp (np_float64 A cx) (np_float64 A cz) dtheta = Inr p \<and>
    setitem A (var_x f) i (fst p) = Inr x' \<and> setitem A (var_z f) i (snd p) = Inr z' \<and>
    op_add A (var_theta f) dtheta = Inr (var_theta g) \<and>
    g = f\<lparr>var_x := x', var_z := z', var_theta := var_theta g\<rparr>"
  using assms
  by (auto simp add: step_def and_then_eq_Inr Let_def)

lemma and_then_Inr_right [simp]: "and_then m Inr = m"
  by (cases m) simp_all

lemma for_range_Nil_fun [simp]: "for_range A zt [] = Inr"
  by (rule ext) simp

lemma for_range_single [simp]: "for_range A zt [i] = step A zt i"
  by (rule ext) simp

lemma for_range_append:
  "for_range A zt (is @ js) f = and_then (for_range A zt is f) (for_range A zt js)"
proof (induction "is" arbitrary: f)
  case Nil
  then show ?case by simp
next
  case (Cons a "is")
  show ?case
  proof (cases "step A zt a f")
    case (Inl e)
    then show ?thesis by simp
  next
    case (Inr v)
    then show ?thesis by (simp add: Cons.IH)
  qed
qed

lemma range_from_Suc: "range_from 1 (Suc (Suc k)) = range_from 1 (Suc k) @ [int (Suc k)]"
  by (simp add: range_from_def)

lemma after_turns_0: "after_turns A zt z0 theta0 0 = initial A zt z0 theta0"
  by (simp add: after_turns_def range_from_def)

lemma after_turns_Suc:
  "after_turns A zt z0 theta0 (Suc k) =
     and_then (after_turns A zt z0 theta0 k) (step A zt (int (Suc k)))"
proof -
  have "for_range A zt (range_from 1 (Suc (Suc k))) f
      = and_then (for_range A zt (range_from 1 (Suc k)) f) (step A zt (int (Suc k)))" for f
    unfolding range_from_Suc for_range_append for_range_single ..
  then show ?thesis
    unfolding after_turns_def by (cases "initial A zt z0 theta0") simp_all
qed

lemma plot_is_after_turns:
  "plot_flight_path A zt z0 theta0 = after_turns A zt z0 theta0 (N - 1)"
  by (simp add: plot_flight_path_def after_turns_def N_def)

lemma after_turns_earlier:
  "after_turns A zt z0 theta0 (k + m) = Inr g \<Longrightarrow> \<exists>f. after_turns A zt z0 theta0 k = Inr f"
proof (induction m arbitrary: g)
  case 0
  then show ?case by simp
next
  case (Suc m)
  then show ?case
    by (auto simp add: after_turns_Suc and_then_eq_Inr)
qed

lemma step_frame:
  assumes "step A zt (int i) f = Inr g"
  shows "var_C g = var_C f \<and> var_ds g = var_ds f \<and> i < length (var_x f) \<and> i < length (var_z f)
    \<and> (\<exists>xn zn. var_x g = (var_x f)[i := xn] \<and> var_z g = (var_z f)[i := zn])"
proof -
  from step_recurrence [OF assms] obtain p x' z' th where
    sx: "setitem A (var_x f) (int i) (fst p) = Inr x'" and
    sz: "setitem A (var_z f) (int i) (snd p) = Inr z'" and
    g: "g = f\<lparr>var_x := x', var_z := z', var_theta := th\<rparr>"
    by blast
  from setitem_Inr_nat [OF sx] setitem_Inr_nat [OF sz] g show ?thesis
    by auto
qed

lemma initial_Inr:
  assumes "initial A zt z0 theta0 = Inr f0"
  shows "var_x f0 = (zeros A N)[0 := np_float64 A (float_lit A 0)]"
    and "var_z f0 = (zeros A N)[0 := np_float64 A z0]"
    and "var_theta f0 = theta0"
    and "var_ds f0 = float_lit A 1"
    and "\<exists>c third m q lhs r rhs.
      np_cos A theta0 = Inr c \<and>
      op_truediv A (float_lit A 1) (float_lit A 3) = Inr third \<and>
      op_mul A third (np_float64 A z0) = Inr m \<and>
      op_truediv A m zt = Inr q \<and>
      op_sub A c q = Inr lhs \<and>
      op_truediv A (np_float64 A z0) zt = Inr r \<and>
      op_pow A r (float_lit A (1/2)) = Inr rhs \<and>
      op_mul A lhs rhs = Inr (var_C f0)"
proof -
  have len: "0 < length (zeros A N)"
    by (simp add: zeros_def N_def)
  have s: "setitem A (zeros A N) 0 v = Inr ((zeros A N)[0 := np_float64 A v])" for v
    using setitem_nat [OF len, of A v] by simp
  have gi: "getitem ((zeros A N)[0 := w]) 0 = Inr w" for w
    using getitem_nat [of 0 "(zeros A N)[0 := w]"] len by simp
  from assms show "var_x f0 = (zeros A N)[0 := np_float64 A (float_lit A 0)]"
    and "var_z f0 = (zeros A N)[0 := np_float64 A z0]"
    and "var_theta f0 = theta0"
    and "var_ds f0 = float_lit A 1"
    and "\<exists>c third m q lhs r rhs.
      np_cos A theta0 = Inr c \<and>
      op_truediv A (float_lit A 1) (float_lit A 3) = Inr third \<and>
      op_mul A third (np_float64 A z0) = Inr m \<and>
      op_truediv A m zt = Inr q \<and>
      op_sub A c q = Inr lhs \<and>
      op_truediv A (np_float64 A z0) zt = Inr r \<and>
      op_pow A r (float_lit A (1/2)) = Inr rhs \<and>
      op_mul A lhs rhs = Inr (var_C f0)"
    by (auto simp add: initial_def Let_def s gi and_then_eq_Inr)
qed

lemma initial_shape:
  assumes "initial A zt z0 theta0 = Inr f0"
  shows "length (var_x f0) = N" "length (var_z f0) = N"
    "var_x f0 ! 0 = np_float64 A (float_lit A 0)" "var_z f0 ! 0 = np_float64 A z0"
  using initial_Inr(1,2) [OF assms] by (simp_all add: zeros_def N_def)

lemma after_turns_frame:
  assumes "after_turns A zt z0 theta0 k = Inr g"
  shows "\<exists>f0. initial A zt z0 theta0 = Inr f0 \<and> var_C g = var_C f0 \<and> var_ds g = var_ds f0
    \<and> length (var_x g) = N \<and> length (var_z g) = N
    \<and> var_x g ! 0 = var_x f0 ! 0 \<and> var_z g ! 0 = var_z f0 ! 0"
  using assms
proof (induction k arbitrary: g)
  case 0
  then show ?case
    by (simp add: after_turns_0 initial_shape)
next
  case (Suc k)
  then obtain f where f: "after_turns A zt z0 theta0 k = Inr f"
    and st: "step A zt (int (Suc k)) f = Inr g"
    by (auto simp add: after_turns_Suc and_then_eq_Inr)
  from Suc.IH [OF f] step_frame [OF st] show ?case
    by auto
qed

lemma later_turns_keep:
  assumes "after_turns A zt z0 theta0 k = Inr f"
    and "after_turns A zt z0 theta0 (k + m) = Inr g"
    and "j \<le> k"
  shows "var_x g ! j = var_x f ! j \<and> var_z g ! j = var_z f ! j \<and> var_C g = var_C f"
  using assms(2)
proof (induction m arbitrary: g)
  case 0
  with assms(1) show ?case by simp
next
  case (Suc m)
  then obtain h where h: "after_turns A zt z0 theta0 (k + m) = Inr h"
    and st: "step A zt (int (Suc (k + m))) h = Inr g"
    by (auto simp add: after_turns_Suc and_then_eq_Inr)
  from step_frame [OF st] Suc.IH [OF h] assms(3) show ?case
    by auto
qed

lemma recurrence:
  assumes fin: "plot_flight_path A zt z0 theta0 = Inr fin" and i: "1 \<le> i" "i < N"
  shows "\<exists>f g h a n0 s n1 R t0 cx t1 cz dtheta p.
     after_turns A zt z0 theta0 (i - 1) = Inr f \<and>
     after_turns A zt z0 theta0 i = Inr g \<and>
     (i = 1 \<longrightarrow> var_theta f = theta0) \<and>
     op_truediv A (np_pi A) (float_lit A 2) = Inr h \<and>
     op_add A (var_theta f) h = Inr a \<and>
     np_cos A a = Inr n0 \<and> np_sin A a = Inr s \<and> op_neg A s = Inr n1 \<and>
     radius_of_curvature A (var_z fin ! (i - 1)) zt (var_C fin) = Inr R \<and>
     op_mul A (np_float64 A n0) R = Inr t0 \<and> op_add A (var_x fin ! (i - 1)) t0 = Inr cx \<and>
     op_mul A (np_float64 A n1) R = Inr t1 \<and> op_add A (var_z fin ! (i - 1)) t1 = Inr cz \<and>
     op_truediv A (float_lit A 1) R = Inr dtheta \<and>
     rotate_point A (var_x fin ! (i - 1)) (var_z fin ! (i - 1))
       (np_float64 A cx) (np_float64 A cz) dtheta = Inr p \<and>
     var_x fin ! i = np_float64 A (fst p) \<and> var_z fin ! i = np_float64 A (snd p) \<and>
     op_add A (var_theta f) dtheta = Inr (var_theta g)"
proof -
  from i obtain j where j: "i = Suc j"
    by (cases i) simp_all
  have e1: "i + (N - 1 - i) = N - 1"
    using i by arith
  have e2: "j + (N - 1 - j) = N - 1"
    using i j by arith
  from fin have whole: "after_turns A zt z0 theta0 (N - 1) = Inr fin"
    by (simp only: plot_is_after_turns)
  then have last: "after_turns A zt z0 theta0 (i + (N - 1 - i)) = Inr fin"
    by (simp only: e1)
  from after_turns_earlier [OF last] obtain g
    where g: "after_turns A zt z0 theta0 i = Inr g"
    by blast
  with j obtain f where f: "after_turns A zt z0 theta0 j = Inr f"
    and st: "step A zt (int i) f = Inr g"
    by (auto simp add: after_turns_Suc and_then_eq_Inr)
  from g j have gj: "after_turns A zt z0 theta0 (j + 1) = Inr g"
    by simp
  from whole have lastj: "after_turns A zt z0 theta0 (j + (N - 1 - j)) = Inr fin"
    by (simp only: e2)
  have keep_f: "var_x fin ! j = var_x f ! j" "var_z fin ! j = var_z f ! j" "var_C fin = var_C f"
    using later_turns_keep [OF f lastj, of j] by simp_all
  have keep_g: "var_x fin ! i = var_x g ! i" "var_z fin ! i = var_z g ! i"
    using later_turns_keep [OF g last, of i] by simp_all
  from after_turns_frame [OF f] obtain f0 where f0: "initial A zt z0 theta0 = Inr f0"
    and ds0: "var_ds f = var_ds f0"
    by blast
  have ds: "var_ds f = float_lit A 1"
    using ds0 initial_Inr(4) [OF f0] by simp
  have th0: "i = 1 \<longrightarrow> var_theta f = theta0"
    using f j initial_Inr(3) [of A zt z0 theta0 f] by (auto simp add: after_turns_0)
  from step_recurrence [OF st] obtain h a n0 s n1 zp R xp t0 cx t1 cz dtheta p x' z' where
    r: "op_truediv A (np_pi A) (float_lit A 2) = Inr h"
      "op_add A (var_theta f) h = Inr a"
      "np_cos A a = Inr n0" "np_sin A a = Inr s" "op_neg A s = Inr n1"
      "getitem (var_z f) (int i - 1) = Inr zp" "getitem (var_x f) (int i - 1) = Inr xp"
      "radius_of_curvature A zp zt (var_C f) = Inr R"
      "op_mul A (np_float64 A n0) R = Inr t0" "op_add A xp t0 = Inr cx"
      "op_mul A (np_float64 A n1) R = Inr t1" "op_add A zp t1 = Inr cz"
      "op_truediv A (var_ds f) R = Inr dtheta"
      "rotate_point A xp zp (np_float64 A cx) (np_float64 A cz) dtheta = Inr p"
      "setitem A (var_x f) (int i) (fst p) = Inr x'"
      "setitem A (var_z f) (int i) (snd p) = Inr z'"
      "op_add A (var_theta f) dtheta = Inr (var_theta g)"
      "g = f\<lparr>var_x := x', var_z := z', var_theta := var_theta g\<rparr>"
    by blast
  have ij: "int i - 1 = int j"
    using j by simp
  from r(6,7) have zp: "zp = var_z f ! j" and xp: "xp = var_x f ! j"
    unfolding ij by (simp_all add: getitem_Inr_nat)
  from arg_cong [OF r(18), of var_x] have vx: "var_x g = x'"
    by simp
  from arg_cong [OF r(18), of var_z] have vz: "var_z g = z'"
    by simp
  from setitem_Inr_nat [OF r(15)] setitem_Inr_nat [OF r(16)] vx vz
  have new: "var_x g ! i = np_float64 A (fst p)" "var_z g ! i = np_float64 A (snd p)"
    by simp_all
  have pred: "i - 1 = j"
    using j by simp
  show ?thesis
    unfolding pred
    using f g th0 r(1-5) r(8-14) r(17) new
    unfolding zp xp ds keep_f(1,2,3) [symmetric] keep_g [symmetric]
    by blast
qed

subsection \<open>The loop on Python floats and NumPy scalars\<close>

lemma step_py_total:
  assumes lx: "length (var_x f) = N" and lz: "length (var_z f) = N"
    and nx: "\<forall>v \<in> set (var_x f). is_np v" and nz: "\<forall>v \<in> set (var_z f). is_np v"
    and i: "1 \<le> i" "i < N"
  shows "\<exists>g. step (py_arith L) zt (int i) f = Inr g
    \<and> (\<forall>v \<in> set (var_x g). is_np v) \<and> (\<forall>v \<in> set (var_z g). is_np v)"
proof -
  have gz: "getitem (var_z f) (int i - 1) = Inr (var_z f ! (i - 1))"
    using getitem_pred [of i "var_z f"] i lz by simp
  have gx: "getitem (var_x f) (int i - 1) = Inr (var_x f ! (i - 1))"
    using getitem_pred [of i "var_x f"] i lx by simp
  have npz: "is_np (var_z f ! (i - 1))"
    using nz i lz by simp
  have sx: "setitem (py_arith L) (var_x f) (int i) v = Inr ((var_x f)[i := NpFloat (float_of v)])" for v
    using setitem_nat [of i "var_x f" "py_arith L" v] i lx by simp
  have sz: "setitem (py_arith L) (var_z f) (int i) v = Inr ((var_z f)[i := NpFloat (float_of v)])" for v
    using setitem_nat [of i "var_z f" "py_arith L" v] i lz by simp
  have up: "\<forall>v \<in> set (a[i := NpFloat r]). is_np v" if "\<forall>v \<in> set a. is_np v" for a r
    using that set_update_subset_insert [of a i "NpFloat r"] by auto
  obtain R where R: "radius_of_curvature (py_arith L) (var_z f ! (i - 1)) zt (var_C f) = Inr (NpFloat R)"
    using roc_py [of "var_z f ! (i - 1)" zt L "var_C f"] npz by simp
  from R gz gx have "\<exists>g. step (py_arith L) zt (int i) f = Inr g"
    by (simp add: step_def sx sz rotate_py py_add_def py_mul_def py_neg_def
        py_truediv_def result_of_np del: fadd.simps fmul.simps fdiv.simps)
  then obtain g where g: "step (py_arith L) zt (int i) f = Inr g"
    by blast
  from step_recurrence [OF g] obtain p x' z' th where
    "setitem (py_arith L) (var_x f) (int i) (fst p) = Inr x'"
    "setitem (py_arith L) (var_z f) (int i) (snd p) = Inr z'"
    "g = f\<lparr>var_x := x', var_z := z', var_theta := th\<rparr>"
    by blast
  then have "var_x g = (var_x f)[i := NpFloat (float_of (fst p))]"
    "var_z g = (var_z f)[i := NpFloat (float_of (snd p))]"
    by (simp_all add: sx sz)
  with up [OF nx] up [OF nz] g show ?thesis
    by simp
qed

lemma initial_py:
  "\<exists>f0. initial (py_arith L) zt z0 theta0 = Inr f0 \<and>
     var_C f0 = NpFloat (fmul
       (fsub (m_cos L (float_of theta0))
          (fdiv (fmul (fdiv (Fin False 1) (Fin False 3)) (float_of z0)) (float_of zt)))
       (m_pow L (fdiv (float_of z0) (float_of zt)) (Fin False (1/2))))"
proof -
  have len: "0 < length (zeros (py_arith L) N)"
    by (simp add: zeros_def N_def)
  have s: "setitem (py_arith L) (zeros (py_arith L) N) 0 v
      = Inr ((zeros (py_arith L) N)[0 := NpFloat (float_of v)])" for v
    using setitem_nat [OF len, of "py_arith L" v] by simp
  have gi: "getitem ((zeros (py_arith L) N)[0 := w]) 0 = Inr w" for w
    using getitem_nat [of 0 "(zeros (py_arith L) N)[0 := w]"] len by simp
  show ?thesis
    by (simp add: initial_def Let_def s gi py_sub_def py_mul_def py_truediv_def py_pow_def
        result_of_np del: fadd.simps fmul.simps fdiv.simps)
qed

lemma initial_cells:
  assumes "initial (py_arith L) zt z0 theta0 = Inr f0"
  shows "(\<forall>v \<in> set (var_x f0). is_np v) \<and> (\<forall>v \<in> set (var_z f0). is_np v)"
proof -
  have z: "\<forall>v \<in> set (zeros (py_arith L) N). is_np v"
    by (simp add: zeros_def)
  have up: "\<forall>v \<in> set (a[i := NpFloat r]). is_np v" if "\<forall>v \<in> set a. is_np v" for a r i
    using that set_update_subset_insert [of a i "NpFloat r"] by auto
  from initial_Inr(1,2) [OF assms] up [OF z] show ?thesis
    by simp
qed

lemma after_turns_py_total:
  "k < N \<Longrightarrow> \<exists>g. after_turns (py_arith L) zt z0 theta0 k = Inr g
     \<and> (\<forall>v \<in> set (var_x g). is_np v) \<and> (\<forall>v \<in> set (var_z g). is_np v)"
proof (induction k)
  case 0
  from initial_py [of L zt z0 theta0] obtain f0
    where f0: "initial (py_arith L) zt z0 theta0 = Inr f0"
    by blast
  with initial_cells [OF f0] show ?case
    by (simp add: after_turns_0)
next
  case (Suc k)
  then obtain f where f: "after_turns (py_arith L) zt z0 theta0 k = Inr f"
    and c: "\<forall>v \<in> set (var_x f). is_np v" "\<forall>v \<in> set (var_z f). is_np v"
    by auto
  from after_turns_frame [OF f] have l: "length (var_x f) = N" "length (var_z f) = N"
    by auto
  from step_py_total [OF l c, of "Suc k" L zt] Suc.prems f show ?case
    by (simp add: after_turns_Suc)
qed

lemma plot_py_total:
  "\<exists>f. plot_flight_path (py_arith L) zt z0 theta0 = Inr f"
  using after_turns_py_total [of "N - 1" L zt z0 theta0]
  by (auto simp add: plot_is_after_turns N_def)

text \<open>
  C5. For every input \<open>(zt, z0, theta0)\<close> of floats the marching loop ends, and after it
  the arrays \<^verbatim>\<open>x\<close> and \<^verbatim>\<open>z\<close> have length \<open>N = 1000\<close>, \<^verbatim>\<open>x[0]\<close> is \<open>0.0\<close> and
  \<^verbatim>\<open>z[0]\<close> holds the value of \<open>z0\<close>: the loop writes the indices \<open>1\<close> to \<open>N - 1\<close>
  only.
\<close>

theorem flight_path_shape:
  "\<exists>f. plot_flight_path (py_arith L) zt z0 theta0 = Inr f \<and>
     length (var_x f) = N \<and> length (var_z f) = N \<and> N = 1000 \<and>
     var_x f ! 0 = NpFloat (Fin False 0) \<and> var_z f ! 0 = NpFloat (float_of z0)"
proof -
  from plot_py_total [of L zt z0 theta0] obtain f
    where f: "plot_flight_path (py_arith L) zt z0 theta0 = Inr f"
    by blast
  then have "after_turns (py_arith L) zt z0 theta0 (N - 1) = Inr f"
    by (simp add: plot_is_after_turns)
  from after_turns_frame [OF this] obtain f0 where
    f0: "initial (py_arith L) zt z0 theta0 = Inr f0" and
    k: "length (var_x f) = N" "length (var_z f) = N"
       "var_x f ! 0 = var_x f0 ! 0" "var_z f ! 0 = var_z f0 ! 0"
    by blast
  from initial_shape(3,4) [OF f0] k f show ?thesis
    by (simp add: N_def)
qed

text \<open>
  C4. For every index \<open>i\<close> from \<open>1\<close> to \<open>N - 1\<close> of a run that ends, with \<open>theta\<close> the
  heading the turns before left (\<open>theta0\<close> for \<open>i = 1\<close>) and \<open>x\<close>, \<open>z\<close>, \<open>C\<close> the final
  arrays and constant: \<open>normal = (cos (theta + \<pi>/2), - sin (theta + \<pi>/2))\<close>,
  \<open>R = radius_of_curvature (z[i-1], zt, C)\<close>,
  \<open>center = (x[i-1] + normal[0] * R, z[i-1] + normal[1] * R)\<close>, \<open>dtheta = 1 / R\<close> (the step
  \<open>ds\<close> is \<open>1\<close>), \<open>(x[i], z[i]) = rotate (x[i-1], z[i-1], center[0], center[1], dtheta)\<close>,
  and the heading after the turn is \<open>theta + dtheta\<close>. The statement holds for every
  reading of the operators.
\<close>

theorem marching_recurrence:
  assumes "plot_flight_path A zt z0 theta0 = Inr fin" and "1 \<le> i" and "i < N"
  shows "\<exists>f g h a n0 s n1 R t0 cx t1 cz dtheta p.
     after_turns A zt z0 theta0 (i - 1) = Inr f \<and>
     after_turns A zt z0 theta0 i = Inr g \<and>
     (i = 1 \<longrightarrow> var_theta f = theta0) \<and>
     op_truediv A (np_pi A) (float_lit A 2) = Inr h \<and>
     op_add A (var_theta f) h = Inr a \<and>
     np_cos A a = Inr n0 \<and> np_sin A a = Inr s \<and> op_neg A s = Inr n1 \<and>
     radius_of_curvature A (var_z fin ! (i - 1)) zt (var_C fin) = Inr R \<and>
     op_mul A (np_float64 A n0) R = Inr t0 \<and> op_add A (var_x fin ! (i - 1)) t0 = Inr cx \<and>
     op_mul A (np_float64 A n1) R = Inr t1 \<and> op_add A (var_z fin ! (i - 1)) t1 = Inr cz \<and>
     op_truediv A (float_lit A 1) R = Inr dtheta \<and>
     rotate_point A (var_x fin ! (i - 1)) (var_z fin ! (i - 1))
       (np_float64 A cx) (np_float64 A cz) dtheta = Inr p \<and>
     var_x fin ! i = np_float64 A (fst p) \<and> var_z fin ! i = np_float64 A (snd p) \<and>
     op_add A (var_theta f) dtheta = Inr (var_theta g)"
  using assms by (rule recurrence)

theorem marching_recurrence_witness:
  "\<exists>fin f g R dtheta p.
     plot_flight_path (py_arith reference) (PyFloat (Fin False 1)) (PyFloat (Fin False 1))
       (PyFloat (Fin False 0)) = Inr fin \<and> (1::nat) \<le> 1 \<and> 1 < N \<and>
     after_turns (py_arith reference) (PyFloat (Fin False 1)) (PyFloat (Fin False 1))
       (PyFloat (Fin False 0)) 0 = Inr f \<and>
     after_turns (py_arith reference) (PyFloat (Fin False 1)) (PyFloat (Fin False 1))
       (PyFloat (Fin False 0)) 1 = Inr g \<and>
     var_theta f = PyFloat (Fin False 0) \<and>
     radius_of_curvature (py_arith reference) (var_z fin ! 0) (PyFloat (Fin False 1))
       (var_C fin) = Inr R \<and>
     py_truediv (PyFloat (Fin False 1)) R = Inr dtheta \<and>
     var_x fin ! 1 = NpFloat (float_of (fst p)) \<and> var_z fin ! 1 = NpFloat (float_of (snd p)) \<and>
     py_add (var_theta f) dtheta = Inr (var_theta g)"
proof -
  let ?one = "PyFloat (Fin False 1)" and ?zero = "PyFloat (Fin False 0)"
  from plot_py_total [of reference ?one ?one ?zero] obtain fin
    where fin: "plot_flight_path (py_arith reference) ?one ?one ?zero = Inr fin"
    by blast
  have one: "(1::nat) \<le> 1" "1 < N"
    by (simp_all add: N_def)
  from marching_recurrence [OF fin one] fin one show ?thesis
    by simp blast
qed

lemma fmul_NaN_right [simp]: "fmul x NaN = NaN"
  by (cases x) simp_all

lemma fadd_NaN_right [simp]: "fadd x NaN = NaN"
  by (cases x) simp_all

lemma fdiv_NaN_right [simp]: "fdiv x NaN = NaN"
  by (cases x) simp_all

lemma degenerate_C:
  "\<exists>f0. initial (py_arith reference) (PyFloat (Fin False 0)) (PyFloat (Fin False 1))
       (PyFloat (Fin False 0)) = Inr f0 \<and> var_C f0 = NpFloat (Infty True)"
proof -
  have m: "fmul (fdiv (Fin False 1) (Fin False 3)) (Fin False 1)
      = Fin False (6004799503160661 / 18014398509481984)"
    unfolding third by (simp add: rnd_def round_mag_def ilog2_eqI[of "-2"] rne_def Let_def)
  have d: "fdiv (Fin False (6004799503160661 / 18014398509481984)) (Fin False 0) = Infty False"
    by simp
  have p: "cr_pow (fdiv (Fin False 1) (Fin False 0)) (Fin False (1/2)) = Infty False"
    by (simp add: cr_pow_def)
  have "fmul (fsub (cr_cos (Fin False 0))
          (fdiv (fmul (fdiv (Fin False 1) (Fin False 3)) (Fin False 1)) (Fin False 0)))
        (cr_pow (fdiv (Fin False 1) (Fin False 0)) (Fin False (1/2))) = Infty True"
    unfolding m d p cr_at_zero by (simp add: fsub_def)
  with initial_py [of reference "PyFloat (Fin False 0)" "PyFloat (Fin False 1)" "PyFloat (Fin False 0)"]
  show ?thesis
    by (simp del: fadd.simps fmul.simps fdiv.simps)
qed

lemma degenerate_R:
  "radius_of_curvature (py_arith reference) (NpFloat (Fin False 1)) (PyFloat (Fin False 0))
     (NpFloat (Infty True)) = Inr (NpFloat NaN)"
proof -
  have q: "fdiv (Fin False 0) (Fin False 1) = Fin False 0"
    by (simp add: rnd_def round_mag_def)
  have p: "cr_pow (Fin False 0) (Fin False (3/2)) = Fin False 0"
    by (simp add: cr_pow_def)
  have "fdiv (Fin False 0)
        (fsub (fdiv (Fin False 1) (Fin False 3))
           (fmul (fdiv (Infty True) (Fin False 2))
              (cr_pow (fdiv (Fin False 0) (Fin False 1)) (Fin False (3/2))))) = NaN"
    unfolding q p third by (simp add: fsub_def)
  then show ?thesis
    by (simp add: roc_py del: fadd.simps fmul.simps fdiv.simps)
qed

lemma degenerate_run:
  "\<exists>f. plot_flight_path (py_arith reference) (PyFloat (Fin False 0)) (PyFloat (Fin False 1))
       (PyFloat (Fin False 0)) = Inr f \<and>
     var_C f = NpFloat (Infty True) \<and> var_x f ! 1 = NpFloat NaN \<and> var_z f ! 1 = NpFloat NaN"
proof -
  let ?A = "py_arith reference"
  let ?zt = "PyFloat (Fin False 0)" and ?z0 = "PyFloat (Fin False 1)"
  from plot_py_total [of reference ?zt ?z0 ?zt] obtain fin
    where fin: "plot_flight_path ?A ?zt ?z0 ?zt = Inr fin"
    by blast
  then have whole: "after_turns ?A ?zt ?z0 ?zt (N - 1) = Inr fin"
    by (simp only: plot_is_after_turns)
  from degenerate_C obtain f0 where f0: "initial ?A ?zt ?z0 ?zt = Inr f0"
    and c0: "var_C f0 = NpFloat (Infty True)"
    by blast
  from after_turns_frame [OF whole] f0 c0
  have C: "var_C fin = NpFloat (Infty True)" and z0: "var_z fin ! 0 = var_z f0 ! 0"
    by auto
  from initial_shape(4) [OF f0] z0 have z: "var_z fin ! 0 = NpFloat (Fin False 1)"
    by simp
  have one: "(1::nat) \<le> 1" "1 < N"
    by (simp_all add: N_def)
  from recurrence [OF fin one] obtain n0 n1 R t0 cx t1 cz dtheta p where
    r0: "radius_of_curvature ?A (var_z fin ! (1 - 1)) ?zt (var_C fin) = Inr R"
      "op_mul ?A (np_float64 ?A n0) R = Inr t0"
      "op_add ?A (var_x fin ! (1 - 1)) t0 = Inr cx"
      "op_mul ?A (np_float64 ?A n1) R = Inr t1"
      "op_add ?A (var_z fin ! (1 - 1)) t1 = Inr cz"
      "rotate_point ?A (var_x fin ! (1 - 1)) (var_z fin ! (1 - 1))
         (np_float64 ?A cx) (np_float64 ?A cz) dtheta = Inr p"
      "var_x fin ! 1 = np_float64 ?A (fst p)" "var_z fin ! 1 = np_float64 ?A (snd p)"
    by blast
  have r: "radius_of_curvature ?A (var_z fin ! 0) ?zt (var_C fin) = Inr R"
      "py_mul (NpFloat (float_of n0)) R = Inr t0" "py_add (var_x fin ! 0) t0 = Inr cx"
      "py_mul (NpFloat (float_of n1)) R = Inr t1" "py_add (var_z fin ! 0) t1 = Inr cz"
      "rotate_point ?A (var_x fin ! 0) (var_z fin ! 0)
         (NpFloat (float_of cx)) (NpFloat (float_of cz)) dtheta = Inr p"
      "var_x fin ! 1 = NpFloat (float_of (fst p))" "var_z fin ! 1 = NpFloat (float_of (snd p))"
    using r0 by simp_all
  from r(1) have R: "R = NpFloat NaN"
    unfolding z C degenerate_R by simp
  from r(2,3) R have cx: "float_of cx = NaN"
    by (auto simp add: py_mul_def py_add_def)
  from r(4,5) R have cz: "float_of cz = NaN"
    by (auto simp add: py_mul_def py_add_def)
  from r(6) cx cz have "float_of (fst p) = NaN" "float_of (snd p) = NaN"
    unfolding rotate_py by auto
  with r(7,8) fin C show ?thesis
    by simp
qed

text \<open>
  C6. On floats (Python or NumPy, on any platform) \<^verbatim>\<open>plot_flight_path\<close> raises nothing
  up to the end of the loop, whatever the values, zero, infinite and NaN included, and
  the arrays end with length \<open>N\<close>: each division that could raise has a NumPy operand.
  The degenerate trim depth \<open>zt = 0.0\<close> (with \<open>z0 = 1.0\<close>, \<open>theta0 = 0.0\<close>) is such a run: the
  division by zero makes \<open>C\<close> the negative infinity, the first radius of curvature is a
  NaN, and so are \<^verbatim>\<open>x[1]\<close> and \<^verbatim>\<open>z[1]\<close>.
\<close>

theorem flight_path_never_raises:
  "(\<exists>f. plot_flight_path (py_arith L) zt z0 theta0 = Inr f \<and>
      length (var_x f) = N \<and> length (var_z f) = N) \<and>
   (\<exists>f. plot_flight_path (py_arith reference) (PyFloat (Fin False 0)) (PyFloat (Fin False 1))
        (PyFloat (Fin False 0)) = Inr f \<and>
      length (var_x f) = N \<and> length (var_z f) = N \<and>
      var_C f = NpFloat (Infty True) \<and> var_x f ! 1 = NpFloat NaN \<and> var_z f ! 1 = NpFloat NaN)"
proof -
  have len: "length (var_x f) = N \<and> length (var_z f) = N"
    if "plot_flight_path (py_arith K) a b c = Inr f" for K a b c f
  proof -
    from that have "after_turns (py_arith K) a b c (N - 1) = Inr f"
      by (simp only: plot_is_after_turns)
    from after_turns_frame [OF this] show ?thesis
      by auto
  qed
  from plot_py_total [of L zt z0 theta0] len have "\<exists>f. plot_flight_path (py_arith L) zt z0 theta0 = Inr f \<and>
      length (var_x f) = N \<and> length (var_z f) = N"
    by blast
  moreover from degenerate_run len
  have "\<exists>f. plot_flight_path (py_arith reference) (PyFloat (Fin False 0)) (PyFloat (Fin False 1))
        (PyFloat (Fin False 0)) = Inr f \<and>
      length (var_x f) = N \<and> length (var_z f) = N \<and>
      var_C f = NpFloat (Infty True) \<and> var_x f ! 1 = NpFloat NaN \<and> var_z f ! 1 = NpFloat NaN"
    by blast
  ultimately show ?thesis
    by blast
qed

subsection \<open>The integration constant\<close>

lemma initial_real:
  assumes "initial real_arith zt z0 theta0 = Inr f0"
  shows "var_C f0 = (cos theta0 - (1/3) * (z0 / zt)) * sqrt (z0 / zt)"
proof -
  from initial_Inr(5) [OF assms] obtain c third m q lhs r rhs where
    v: "np_cos real_arith theta0 = Inr c"
      "op_truediv real_arith (float_lit real_arith 1) (float_lit real_arith 3) = Inr third"
      "op_mul real_arith third (np_float64 real_arith z0) = Inr m"
      "op_truediv real_arith m zt = Inr q"
      "op_sub real_arith c q = Inr lhs"
      "op_truediv real_arith (np_float64 real_arith z0) zt = Inr r"
      "op_pow real_arith r (float_lit real_arith (1/2)) = Inr rhs"
      "op_mul real_arith lhs rhs = Inr (var_C f0)"
    by blast
  have fl: "\<lfloor>(1::real)/2\<rfloor> = 0" by simp
  from v(4) have zt: "zt \<noteq> 0" by (auto split: if_splits)
  from v(2) have third: "third = 1/3" by simp
  from v(1,3,4,5) zt third have lhs: "lhs = cos theta0 - (1/3) * (z0 / zt)" by auto
  from v(6) zt have r: "r = z0 / zt" by simp
  from v(7) have "rhs = sqrt r"
    by (auto simp add: real_pow_def fl powr_half_sqrt split: if_splits)
  with v(8) lhs r show ?thesis
    by simp
qed

lemma initial_real_total:
  assumes "zt \<noteq> 0" and "0 \<le> z0 / zt"
  shows "\<exists>f0. initial real_arith zt z0 theta0 = Inr f0"
proof -
  have len: "0 < length (zeros real_arith N)"
    by (simp add: zeros_def N_def)
  have s: "setitem real_arith (zeros real_arith N) 0 v = Inr ((zeros real_arith N)[0 := v])" for v
    using setitem_nat [OF len, of real_arith v] by simp
  have gi: "getitem ((zeros real_arith N)[0 := w]) 0 = Inr w" for w
    using getitem_nat [of 0 "(zeros real_arith N)[0 := w]"] len by simp
  have fl: "\<lfloor>(1::real)/2\<rfloor> = 0" by simp
  have "\<exists>v. real_pow (z0 / zt) (1/2) = Inr v"
    using assms(2) by (auto simp add: real_pow_def fl)
  then obtain v where "real_pow (z0 / zt) (1/2) = Inr v"
    by blast
  then show ?thesis
    using assms(1) by (simp add: initial_def Let_def s gi)
qed

text \<open>
  C3. The constant \<open>C\<close> is computed before the loop and no turn of the loop changes it:
  after any number \<open>k\<close> of turns, and so at the end (\<open>k = 999\<close>), \<^verbatim>\<open>C\<close> is the value
  the initial block gave it. That value is
  \<open>(cos theta0 - (1/3) * (z0 / zt)) * sqrt (z0 / zt)\<close>: literally so in exact real
  arithmetic, and on floats with each operation the binary64 one, in the source's
  grouping \<open>((1/3) * z0) / zt\<close> and with the square root taken as the power \<open>0.5\<close>.
\<close>

theorem integration_constant:
  "(after_turns A zt z0 theta0 k = Inr g \<longrightarrow>
      (\<exists>f0. initial A zt z0 theta0 = Inr f0 \<and> var_C g = var_C f0)) \<and>
   plot_flight_path A zt z0 theta0 = after_turns A zt z0 theta0 999 \<and>
   (\<exists>p0. initial (py_arith L) pzt pz0 ptheta0 = Inr p0 \<and>
      var_C p0 = NpFloat (fmul
        (fsub (m_cos L (float_of ptheta0))
           (fdiv (fmul (fdiv (Fin False 1) (Fin False 3)) (float_of pz0)) (float_of pzt)))
        (m_pow L (fdiv (float_of pz0) (float_of pzt)) (Fin False (1/2))))) \<and>
   (initial real_arith rzt rz0 rtheta0 = Inr r0 \<longrightarrow>
      var_C r0 = (cos rtheta0 - (1/3) * (rz0 / rzt)) * sqrt (rz0 / rzt))"
  using after_turns_frame [of A zt z0 theta0 k g] initial_py [of L pzt pz0 ptheta0]
    initial_real [of rzt rz0 rtheta0 r0]
  by (auto simp add: plot_is_after_turns N_def)

theorem integration_constant_witness:
  "\<exists>g r0. after_turns (py_arith reference) (PyFloat (Fin False 1)) (PyFloat (Fin False 1))
       (PyFloat (Fin False 0)) 999 = Inr g \<and>
     (\<exists>f0. initial (py_arith reference) (PyFloat (Fin False 1)) (PyFloat (Fin False 1))
         (PyFloat (Fin False 0)) = Inr f0 \<and> var_C g = var_C f0) \<and>
     initial real_arith 1 1 0 = Inr r0 \<and> var_C r0 = 2/3"
proof -
  let ?one = "PyFloat (Fin False 1)" and ?zero = "PyFloat (Fin False 0)"
  from after_turns_py_total [of 999 reference ?one ?one ?zero] obtain g
    where g: "after_turns (py_arith reference) ?one ?one ?zero 999 = Inr g"
    by (auto simp add: N_def)
  from initial_real_total [of 1 1 0] obtain r0
    where r0: "initial real_arith 1 1 0 = Inr r0"
    by auto
  from integration_constant [of "py_arith reference" ?one ?one ?zero 999 g reference
      ?one ?one ?zero 1 1 0 r0] g r0
  show ?thesis
    by auto
qed

end
